theory Spec2Isabelle
  imports
    Main
    "HOL-Library.Word"
    "HOL-Library.Sublist"
    "HOL-Library.Product_Lexorder"
begin

chapter \<open>The static-site generator (scripts/build.js)\<close>

section \<open>Strings\<close>

text \<open>
  An ECMAScript string is a sequence of 16-bit code units, and a regular expression
  without the \<^verbatim>\<open>u\<close> flag works code unit by code unit. A string literal of the source is
  written \<open>js ''...''\<close>.
\<close>

type_synonym jschar = "16 word"
type_synonym jsstring = "jschar list"

definition js :: "string \<Rightarrow> jsstring" where
  "js s = map of_char s"

text \<open>
  The class \<^verbatim>\<open>\s\<close> of regular expressions, which is also what \<^verbatim>\<open>String.prototype.trim\<close>
  removes: the white space and line terminator code units.
\<close>

definition isSpace :: "jschar \<Rightarrow> bool" where
  "isSpace c \<longleftrightarrow>
     c = 0x09 \<or> c = 0x0A \<or> c = 0x0B \<or> c = 0x0C \<or> c = 0x0D \<or> c = 0x20 \<or> c = 0xA0 \<or>
     c = 0x1680 \<or> (0x2000 \<le> c \<and> c \<le> 0x200A) \<or> c = 0x2028 \<or> c = 0x2029 \<or>
     c = 0x202F \<or> c = 0x205F \<or> c = 0x3000 \<or> c = 0xFEFF"

definition trim :: "jsstring \<Rightarrow> jsstring" where
  "trim s = rev (dropWhile isSpace (rev (dropWhile isSpace s)))"

text \<open>\<^verbatim>\<open>Array.prototype.join\<close> on an array of strings.\<close>

fun join :: "jsstring \<Rightarrow> jsstring list \<Rightarrow> jsstring" where
  "join sep [] = []"
| "join sep [x] = x"
| "join sep (x # y # ys) = x @ sep @ join sep (y # ys)"

text \<open>
  Case folding of a regular expression with the \<^verbatim>\<open>i\<close> flag and no \<^verbatim>\<open>u\<close> flag, on a
  pattern of ASCII letters: only the two ASCII cases of a letter match it.
\<close>

definition asciiLower :: "jschar \<Rightarrow> jschar" where
  "asciiLower c = (if 0x41 \<le> c \<and> c \<le> 0x5A then c + 0x20 else c)"

definition startsWith :: "jsstring \<Rightarrow> jsstring \<Rightarrow> bool" where
  "startsWith s p \<longleftrightarrow> take (length p) s = p"

definition startsWithCI :: "jsstring \<Rightarrow> jsstring \<Rightarrow> bool" where
  "startsWithCI s p \<longleftrightarrow> map asciiLower (take (length p) s) = p"

definition endsWith :: "jsstring \<Rightarrow> jsstring \<Rightarrow> bool" where
  "endsWith s p \<longleftrightarrow> length p \<le> length s \<and> drop (length s - length p) s = p"

section \<open>The runtime\<close>

text \<open>
  What the program takes from Node and its libraries, and not from its own source:
  Unicode normalisation and case mapping, the Markdown renderer, \<^verbatim>\<open>Date\<close>, \<^verbatim>\<open>URL\<close>,
  \<^verbatim>\<open>Intl\<close> and the system clock. Each is a field of the record, so every theorem
  below holds whatever these functions compute. A point in time is its number of
  milliseconds since the epoch.
\<close>

text \<open>
  A value whose type the program does not fix (a field of the metadata header as the
  YAML parser hands it over, an argument of the URL helpers): \<^verbatim>\<open>null\<close>, a string, an
  array, or anything else (a number, a boolean, a date, a mapping), of which the
  program only uses the truthiness and the text that \<^verbatim>\<open>String(v)\<close> gives.
\<close>

datatype jsvalue =
    VNull
  | VString jsstring
  | VArray "jsvalue list"
  | VOther bool jsstring

fun truthy :: "jsvalue \<Rightarrow> bool" where
  "truthy VNull = False"
| "truthy (VString s) = (s \<noteq> [])"
| "truthy (VArray xs) = True"
| "truthy (VOther b s) = b"

text \<open>\<^verbatim>\<open>String(v)\<close>; an array joins its elements with commas, \<^verbatim>\<open>null\<close> elements as empty strings.\<close>

fun toStr :: "jsvalue \<Rightarrow> jsstring" where
  "toStr VNull = js ''null''"
| "toStr (VString s) = s"
| "toStr (VArray xs) = join (js '','') (map (\<lambda>x. if x = VNull then [] else toStr x) xs)"
| "toStr (VOther b s) = s"

datatype error = Error jsstring | TypeError jsstring

record host =
  normalizeNFD :: "jsstring \<Rightarrow> jsstring"
  toLowerCase :: "jsstring \<Rightarrow> jsstring"
  mdRender :: "jsstring \<Rightarrow> jsstring"
  parseDate :: "jsvalue \<Rightarrow> int option"
  toISOString :: "int \<Rightarrow> jsstring"
  toUTCString :: "int \<Rightarrow> jsstring"
  formatDate :: "int \<Rightarrow> jsstring"
  urlOrigin :: "jsstring \<Rightarrow> jsstring option \<Rightarrow> jsstring option"
  urlResolve :: "jsstring \<Rightarrow> jsstring \<Rightarrow> jsstring option"
  localeCompare :: "jsstring \<Rightarrow> jsstring \<Rightarrow> int"
  clock :: "nat \<Rightarrow> int"

subsection \<open>Objects\<close>

text \<open>
  A plain object \<^verbatim>\<open>{}\<close> inherits the properties of \<^verbatim>\<open>Object.prototype\<close>, and a read
  \<^verbatim>\<open>obj[key]\<close> finds them when the object has no property of its own under the key.
  The table gives each inherited name with the text \<^verbatim>\<open>String\<close> makes of its value.
\<close>

definition nativeFunction :: "string \<Rightarrow> jsstring" where
  "nativeFunction n = js ''function '' @ js n @ js ''() { [native code] }''"

definition objectPrototype :: "(jsstring \<times> jsstring) list" where
  "objectPrototype =
     [(js ''constructor'', nativeFunction ''Object''),
      (js ''__defineGetter__'', nativeFunction ''__defineGetter__''),
      (js ''__defineSetter__'', nativeFunction ''__defineSetter__''),
      (js ''hasOwnProperty'', nativeFunction ''hasOwnProperty''),
      (js ''__lookupGetter__'', nativeFunction ''__lookupGetter__''),
      (js ''__lookupSetter__'', nativeFunction ''__lookupSetter__''),
      (js ''isPrototypeOf'', nativeFunction ''isPrototypeOf''),
      (js ''propertyIsEnumerable'', nativeFunction ''propertyIsEnumerable''),
      (js ''toString'', nativeFunction ''toString''),
      (js ''valueOf'', nativeFunction ''valueOf''),
      (js ''__proto__'', js ''[object Object]''),
      (js ''toLocaleString'', nativeFunction ''toLocaleString'')]"

text \<open>
  The own properties of an object are kept in the order of their creation. Their
  enumeration (\<^verbatim>\<open>Object.keys\<close>, \<^verbatim>\<open>Object.entries\<close>, \<^verbatim>\<open>JSON.stringify\<close>) lists the keys
  that are array indices first, in ascending numeric order, and then the other keys
  in the order of creation. An array index is the decimal numeral, without a leading
  zero, of an integer from 0 to 4294967294.
\<close>

definition isDigit :: "jschar \<Rightarrow> bool" where
  "isDigit c \<longleftrightarrow> 0x30 \<le> c \<and> c \<le> 0x39"

definition digitsValue :: "jsstring \<Rightarrow> nat" where
  "digitsValue s = foldl (\<lambda>n c. 10 * n + (unat c - 48)) 0 s"

definition isArrayIndex :: "jsstring \<Rightarrow> bool" where
  "isArrayIndex s \<longleftrightarrow>
     s \<noteq> [] \<and> list_all isDigit s \<and> (if hd s = 0x30 then length s = 1 else True) \<and>
     digitsValue s \<le> 4294967294"

definition ownKeys :: "(jsstring \<times> 'v) list \<Rightarrow> jsstring list" where
  "ownKeys obj =
     sort_key digitsValue (filter isArrayIndex (map fst obj)) @
     filter (\<lambda>k. \<not> isArrayIndex k) (map fst obj)"

subsection \<open>Sorting\<close>

text \<open>
  \<^verbatim>\<open>Array.prototype.sort\<close> with a comparator is a stable sort: an element goes before
  another when the comparator is negative, and elements that compare equal keep their
  order. Insertion from the right computes that order.
\<close>

fun insertBy :: "('a \<Rightarrow> 'a \<Rightarrow> int) \<Rightarrow> 'a \<Rightarrow> 'a list \<Rightarrow> 'a list" where
  "insertBy cmp x [] = [x]"
| "insertBy cmp x (y # ys) = (if cmp x y \<le> 0 then x # y # ys else y # insertBy cmp x ys)"

definition sortBy :: "('a \<Rightarrow> 'a \<Rightarrow> int) \<Rightarrow> 'a list \<Rightarrow> 'a list" where
  "sortBy cmp xs = foldr (insertBy cmp) xs []"

section \<open>The site configuration and its URLs\<close>

text \<open>The constant \<^verbatim>\<open>SITE\<close> (lines 19 to 26), as it stands once the process has started.\<close>

record site =
  siteName :: jsstring
  siteDescription :: jsstring
  origin :: jsstring
  basePath :: jsstring
  adsClient :: jsstring

text \<open>The test \<^verbatim>\<open>/^https?:\/\//i\<close>.\<close>

definition isHttpUrl :: "jsstring \<Rightarrow> bool" where
  "isHttpUrl s \<longleftrightarrow> startsWithCI s (js ''http://'') \<or> startsWithCI s (js ''https://'')"

definition normalizePath :: "jsvalue \<Rightarrow> jsstring" where
  "normalizePath rawPath =
     (let v = trim (toStr (if truthy rawPath then rawPath else VString []))
      in if v = [] \<or> v = js ''/'' then js ''/''
         else if startsWith v (js ''/'') then v else js ''/'' @ v)"

definition toPublicUrl :: "site \<Rightarrow> jsvalue \<Rightarrow> jsstring" where
  "toPublicUrl st rawPath =
     (if isHttpUrl (toStr rawPath) then toStr rawPath
      else let pathWithBase = basePath st @ normalizePath rawPath
           in if pathWithBase = [] then js ''/'' else pathWithBase)"

text \<open>\<^verbatim>\<open>new URL(path, origin)\<close> throws a \<^verbatim>\<open>TypeError\<close> when it cannot parse its arguments.\<close>

definition toAbsoluteUrl :: "host \<Rightarrow> site \<Rightarrow> jsvalue \<Rightarrow> error + jsstring" where
  "toAbsoluteUrl h st rawPath =
     (if isHttpUrl (toStr rawPath) then Inr (toStr rawPath)
      else let pathWithBase = basePath st @ normalizePath rawPath
           in case urlResolve h (if pathWithBase = [] then js ''/'' else pathWithBase) (origin st) of
                None \<Rightarrow> Inl (TypeError (js ''Invalid URL''))
              | Some u \<Rightarrow> Inr u)"

section \<open>Slugs\<close>

text \<open>
  \<^verbatim>\<open>slugify\<close> (build.js, lines 760 to 768) is a chain of six string operations. The
  first and the third are the runtime's; the others are modelled here.
\<close>

text \<open>\<^verbatim>\<open>.replace(/[\u0300-\u036f]/g, '')\<close>: the combining diacritical marks are removed.\<close>

definition isCombiningMark :: "jschar \<Rightarrow> bool" where
  "isCombiningMark c \<longleftrightarrow> 0x0300 \<le> c \<and> c \<le> 0x036F"

definition stripMarks :: "jsstring \<Rightarrow> jsstring" where
  "stripMarks s = filter (\<lambda>c. \<not> isCombiningMark c) s"

text \<open>\<^verbatim>\<open>.replace(/[^a-z0-9]+/g, '-')\<close>: every maximal run of other code units becomes one hyphen.\<close>

definition isSlugChar :: "jschar \<Rightarrow> bool" where
  "isSlugChar c \<longleftrightarrow> (0x61 \<le> c \<and> c \<le> 0x7A) \<or> (0x30 \<le> c \<and> c \<le> 0x39)"

fun hyphenate :: "bool \<Rightarrow> jsstring \<Rightarrow> jsstring" where
  "hyphenate inRun [] = []"
| "hyphenate inRun (c # cs) =
     (if isSlugChar c then c # hyphenate False cs
      else if inRun then hyphenate True cs
      else 0x2D # hyphenate True cs)"

text \<open>
  \<^verbatim>\<open>.replace(/(^-|-$)+/g, '')\<close>: \<^verbatim>\<open>^-\<close> matches a hyphen only as the first code unit and
  \<^verbatim>\<open>-$\<close> only as the last, so one leading and one trailing hyphen are removed.
\<close>

definition stripEdgeHyphens :: "jsstring \<Rightarrow> jsstring" where
  "stripEdgeHyphens s =
     (let s1 = (case s of [] \<Rightarrow> [] | c # cs \<Rightarrow> if c = 0x2D then cs else s)
      in if s1 \<noteq> [] \<and> last s1 = 0x2D then butlast s1 else s1)"

definition slugify :: "host \<Rightarrow> jsstring \<Rightarrow> jsstring" where
  "slugify h text =
     take 80 (stripEdgeHyphens (hyphenate False (toLowerCase h (stripMarks (normalizeNFD h text)))))"

section \<open>Escaping\<close>

text \<open>\<^verbatim>\<open>.replace(/c/g, r)\<close> for a pattern of one code unit.\<close>

definition replaceAllChar :: "jschar \<Rightarrow> jsstring \<Rightarrow> jsstring \<Rightarrow> jsstring" where
  "replaceAllChar c r s = concat (map (\<lambda>x. if x = c then r else [x]) s)"

definition escapeHtml :: "jsstring \<Rightarrow> jsstring" where
  "escapeHtml v =
     replaceAllChar 0x27 (js ''&#39;'')
       (replaceAllChar 0x22 (js ''&quot;'')
         (replaceAllChar 0x3E (js ''&gt;'')
           (replaceAllChar 0x3C (js ''&lt;'')
             (replaceAllChar 0x26 (js ''&amp;'') v))))"

definition escapeXml :: "jsstring \<Rightarrow> jsstring" where
  "escapeXml v = escapeHtml v"

text \<open>The entity that stands for a code unit, in the words of the claim.\<close>

definition escapeChar :: "jschar \<Rightarrow> jsstring" where
  "escapeChar c =
     (if c = 0x26 then js ''&amp;''
      else if c = 0x3C then js ''&lt;''
      else if c = 0x3E then js ''&gt;''
      else if c = 0x22 then js ''&quot;''
      else if c = 0x27 then js ''&#39;''
      else [c])"

section \<open>Templates\<close>

text \<open>
  \<^verbatim>\<open>renderTemplate\<close> (lines 734 to 739) replaces the matches of
  \<^verbatim>\<open>/{{\s*([a-zA-Z0-9_]+)\s*}}/g\<close>. The three classes of the pattern are disjoint and
  none holds a brace, so a match at a position is the greedy one or none: two opening
  braces, all the white space, the longest name, all the white space, two closing braces.
  \<open>matchPlaceholder\<close> gives the name and the text after the match.
\<close>

definition isKeyChar :: "jschar \<Rightarrow> bool" where
  "isKeyChar c \<longleftrightarrow>
     (0x61 \<le> c \<and> c \<le> 0x7A) \<or> (0x41 \<le> c \<and> c \<le> 0x5A) \<or> (0x30 \<le> c \<and> c \<le> 0x39) \<or> c = 0x5F"

definition matchPlaceholder :: "jsstring \<Rightarrow> (jsstring \<times> jsstring) option" where
  "matchPlaceholder s =
     (if startsWith s (js ''{{'') then
        let r1 = dropWhile isSpace (drop 2 s);
            key = takeWhile isKeyChar r1;
            r2 = dropWhile isSpace (dropWhile isKeyChar r1)
        in if key \<noteq> [] \<and> startsWith r2 (js ''}}'') then Some (key, drop 2 r2) else None
      else None)"

text \<open>
  The mapping \<^verbatim>\<open>params\<close> is a plain object: a name has no property (\<open>None\<close>), or one
  that is \<^verbatim>\<open>undefined\<close> or \<^verbatim>\<open>null\<close> (\<open>Some None\<close>), or one with a value, given by the
  text \<^verbatim>\<open>String\<close> makes of it. The read \<^verbatim>\<open>params[key]\<close> falls back to the prototype.
\<close>

type_synonym params = "jsstring \<Rightarrow> jsstring option option"

definition templateValue :: "params \<Rightarrow> jsstring \<Rightarrow> jsstring" where
  "templateValue ps key =
     (case ps key of
        Some None \<Rightarrow> []
      | Some (Some v) \<Rightarrow> v
      | None \<Rightarrow> (case map_of objectPrototype key of Some v \<Rightarrow> v | None \<Rightarrow> []))"

lemma matchPlaceholder_shorter:
  "matchPlaceholder s = Some (key, rest) \<Longrightarrow> length rest < length s"
proof -
  assume m: "matchPlaceholder s = Some (key, rest)"
  define r1 where "r1 = dropWhile isSpace (drop 2 s)"
  define r2 where "r2 = dropWhile isSpace (dropWhile isKeyChar r1)"
  from m have st: "startsWith s (js ''{{'')" and rest: "rest = drop 2 r2"
    by (auto simp: matchPlaceholder_def Let_def r1_def r2_def split: if_splits)
  have "length r2 \<le> length (dropWhile isKeyChar r1)"
    unfolding r2_def by (rule length_dropWhile_le)
  also have "\<dots> \<le> length r1" by (rule length_dropWhile_le)
  also have "\<dots> \<le> length (drop 2 s)" unfolding r1_def by (rule length_dropWhile_le)
  finally have "length r2 \<le> length s - 2" by simp
  moreover from st have "2 \<le> length s"
    by (cases s; cases "tl s") (auto simp: startsWith_def js_def)
  ultimately show ?thesis using rest by simp
qed

function renderTemplate :: "jsstring \<Rightarrow> params \<Rightarrow> jsstring" where
  "renderTemplate [] ps = []"
| "renderTemplate (c # cs) ps =
     (case matchPlaceholder (c # cs) of
        Some (key, rest) \<Rightarrow> templateValue ps key @ renderTemplate rest ps
      | None \<Rightarrow> c # renderTemplate cs ps)"
  by pat_completeness auto
termination
  by (relation "measure (\<lambda>(s, ps). length s)") (auto dest: matchPlaceholder_shorter)

section \<open>The rendered Markdown\<close>

text \<open>
  \<^verbatim>\<open>addLazyLoadingToImages\<close> (lines 741 to 743) replaces the matches of \<^verbatim>\<open>/<img\s+/g\<close>:
  the four code units of \<^verbatim>\<open><img\<close> and all the white space after them, at least one.
\<close>

definition imgMatch :: "jsstring \<Rightarrow> bool" where
  "imgMatch s \<longleftrightarrow> startsWith s (js ''<img'') \<and> drop 4 s \<noteq> [] \<and> isSpace (hd (drop 4 s))"

definition lazyImg :: jsstring where
  \<open>lazyImg = js ''<img loading="lazy" ''\<close>

function addLazyLoadingToImages :: "jsstring \<Rightarrow> jsstring" where
  "addLazyLoadingToImages [] = []"
| "addLazyLoadingToImages (c # cs) =
     (if imgMatch (c # cs)
      then lazyImg @ addLazyLoadingToImages (dropWhile isSpace (drop 3 cs))
      else c # addLazyLoadingToImages cs)"
  by pat_completeness auto
termination
  by (relation "measure length")
     (auto simp: less_Suc_eq_le intro: order_trans [OF length_dropWhile_le])

text \<open>
  The words of the claim about images, for the tags the pattern finds: wherever the text
  \<^verbatim>\<open><img\<close> and white space stand, the attribute follows the name.
\<close>

definition lazyEverywhere :: "jsstring \<Rightarrow> bool" where
  "lazyEverywhere html \<longleftrightarrow>
     (\<forall>i < length html. imgMatch (drop i html) \<longrightarrow> startsWith (drop i html) lazyImg)"


text \<open>
  \<^verbatim>\<open>stripHtml\<close> (lines 753 to 758): a tag \<^verbatim>\<open>/<[^>]+>/g\<close> becomes a space, a run of white
  space \<^verbatim>\<open>/\s+/g\<close> becomes one space, and the ends are trimmed.
\<close>

function stripTags :: "jsstring \<Rightarrow> jsstring" where
  "stripTags [] = []"
| "stripTags (c # cs) =
     (if c = 0x3C \<and> takeWhile (\<lambda>x. x \<noteq> 0x3E) cs \<noteq> [] \<and> dropWhile (\<lambda>x. x \<noteq> 0x3E) cs \<noteq> []
      then 0x20 # stripTags (tl (dropWhile (\<lambda>x. x \<noteq> 0x3E) cs))
      else c # stripTags cs)"
  by pat_completeness auto
termination
  by (relation "measure length")
     (auto simp: less_Suc_eq_le intro: order_trans [OF diff_le_self length_dropWhile_le])

fun collapseSpaces :: "bool \<Rightarrow> jsstring \<Rightarrow> jsstring" where
  "collapseSpaces inRun [] = []"
| "collapseSpaces inRun (c # cs) =
     (if \<not> isSpace c then c # collapseSpaces False cs
      else if inRun then collapseSpaces True cs
      else 0x20 # collapseSpaces True cs)"

definition stripHtml :: "jsstring \<Rightarrow> jsstring" where
  "stripHtml html = trim (collapseSpaces False (stripTags html))"

text \<open>
  \<^verbatim>\<open>isExternalLink\<close> (lines 647 to 668). The attribute the renderer reads is a string or
  \<^verbatim>\<open>null\<close>. The two \<^verbatim>\<open>URL\<close> objects are the runtime's; a \<^verbatim>\<open>URL\<close> that cannot be built
  throws, and the \<^verbatim>\<open>catch\<close> answers \<^verbatim>\<open>false\<close>.
\<close>

definition isExternalLink :: "host \<Rightarrow> site \<Rightarrow> jsstring option \<Rightarrow> bool" where
  "isExternalLink h st href =
     (case href of
        None \<Rightarrow> False
      | Some raw \<Rightarrow>
          if raw = [] then False
          else let v = trim raw
               in if v = [] \<or> startsWith v (js ''#'') \<or> startsWith v (js ''/'') then False
                  else if startsWithCI v (js ''mailto:'') \<or> startsWithCI v (js ''tel:'')
                          \<or> startsWithCI v (js ''javascript:'') then False
                  else (case urlOrigin h v (Some (origin st)) of
                          None \<Rightarrow> False
                        | Some linkOrigin \<Rightarrow>
                            (case urlOrigin h (origin st) None of
                               None \<Rightarrow> False
                             | Some siteOrigin \<Rightarrow> linkOrigin \<noteq> siteOrigin)))"

text \<open>
  The renderer rule for \<^verbatim>\<open>link_open\<close> (lines 57 to 65) works on the attributes of the
  anchor's token: \<^verbatim>\<open>attrGet\<close> reads the first attribute of a name, \<^verbatim>\<open>attrSet\<close> replaces
  it or adds one at the end. The rule hands the token to the default renderer.
\<close>

type_synonym attrs = "(jsstring \<times> jsstring) list"

definition attrGet :: "attrs \<Rightarrow> jsstring \<Rightarrow> jsstring option" where
  "attrGet as name = map_of as name"

fun attrSet :: "jsstring \<Rightarrow> jsstring \<Rightarrow> attrs \<Rightarrow> attrs" where
  "attrSet name v [] = [(name, v)]"
| "attrSet name v (p # ps) = (if fst p = name then (name, v) # ps else p # attrSet name v ps)"

definition link_open :: "host \<Rightarrow> site \<Rightarrow> attrs \<Rightarrow> attrs" where
  "link_open h st as =
     (if isExternalLink h st (attrGet as (js ''href''))
      then attrSet (js ''rel'') (js ''noopener noreferrer'') (attrSet (js ''target'') (js ''_blank'') as)
      else as)"

section \<open>The content loader\<close>

text \<open>
  An entry of the posts directory, in the order \<^verbatim>\<open>readdir\<close> lists them: its name, and
  what the front-matter parser makes of its text (the metadata header as an object,
  the body as a string).
\<close>

record post_file =
  fileName :: jsstring
  fmData :: "(jsstring \<times> jsvalue) list"
  fmContent :: jsstring

record post =
  slug :: jsstring
  title :: jsstring
  date :: int
  isoDate :: jsstring
  formattedDate :: jsstring
  category :: jsstring
  summary :: jsstring
  readingTime :: jsstring
  tags :: "jsstring list"
  tagSlugs :: "(jsstring \<times> jsstring) list"
  coverImage :: jsstring
  coverImageAbsolute :: jsstring
  url :: jsstring
  absoluteUrl :: jsstring
  htmlContent :: jsstring
  plainText :: jsstring

definition REQUIRED_FRONTMATTER_FIELDS :: "jsstring list" where
  "REQUIRED_FRONTMATTER_FIELDS =
     [js ''title'', js ''date'', js ''category'', js ''summary'', js ''readingTime'', js ''tags'',
      js ''coverImage'']"

text \<open>A read \<^verbatim>\<open>data.field\<close>; a field the header does not have reads as \<^verbatim>\<open>undefined\<close>.\<close>

definition getField :: "(jsstring \<times> jsvalue) list \<Rightarrow> jsstring \<Rightarrow> jsvalue" where
  "getField data f = (case map_of data f of Some v \<Rightarrow> v | None \<Rightarrow> VOther False (js ''undefined''))"

definition missingFields :: "(jsstring \<times> jsvalue) list \<Rightarrow> jsstring list" where
  "missingFields data = filter (\<lambda>f. map_of data f = None) REQUIRED_FRONTMATTER_FIELDS"

definition isNonEmptyArray :: "jsvalue \<Rightarrow> bool" where
  "isNonEmptyArray v = (case v of VArray xs \<Rightarrow> xs \<noteq> [] | _ \<Rightarrow> False)"

text \<open>The two messages of \<^verbatim>\<open>validateFrontmatter\<close> (lines 169 to 179); 0xE1 and 0xF3 are the accented vowels.\<close>

definition missingMessage :: "jsstring \<Rightarrow> jsstring list \<Rightarrow> jsstring" where
  "missingMessage filename missing =
     filename @ js '' est'' @ [0xE1] @ js '' sem os campos obrigat'' @ [0xF3] @ js ''rios: ''
       @ join (js '', '') missing"

definition noTagsMessage :: "jsstring \<Rightarrow> jsstring" where
  \<open>noTagsMessage filename = filename @ js '' deve ter ao menos uma tag em "tags".''\<close>

definition validateFrontmatter :: "jsstring \<Rightarrow> (jsstring \<times> jsvalue) list \<Rightarrow> error + unit" where
  "validateFrontmatter filename data =
     (let missing = missingFields data
      in if missing \<noteq> [] then Inl (Error (missingMessage filename missing))
         else if \<not> isNonEmptyArray (getField data (js ''tags''))
         then Inl (Error (noTagsMessage filename))
         else Inr ())"

definition invalidDateMessage :: "jsstring \<Rightarrow> jsvalue \<Rightarrow> jsstring" where
  "invalidDateMessage filename v =
     js ''Data inv'' @ [0xE1] @ js ''lida em '' @ filename @ js '': '' @ toStr v"

text \<open>\<^verbatim>\<open>path.basename(file, '.md')\<close> of a directory entry whose name ends with \<^verbatim>\<open>.md\<close>.\<close>

definition basenameMd :: "jsstring \<Rightarrow> jsstring" where
  "basenameMd file = take (length file - 3) file"

definition arrayItems :: "jsvalue \<Rightarrow> jsvalue list" where
  "arrayItems v = (case v of VArray xs \<Rightarrow> xs | _ \<Rightarrow> [])"

text \<open>The body of the loop of \<^verbatim>\<open>loadPosts\<close> (lines 128 to 164), for one file.\<close>

definition loadPost :: "host \<Rightarrow> site \<Rightarrow> post_file \<Rightarrow> error + post" where
  "loadPost h st f =
     (let file = fileName f; data = fmData f
      in case validateFrontmatter file data of
           Inl e \<Rightarrow> Inl e
         | Inr _ \<Rightarrow>
             (let sl = slugify h (basenameMd file)
              in case parseDate h (getField data (js ''date'')) of
                   None \<Rightarrow> Inl (Error (invalidDateMessage file (getField data (js ''date''))))
                 | Some d \<Rightarrow>
                     (let tgs = filter (\<lambda>t. t \<noteq> [])
                                  (map (\<lambda>t. trim (toStr t)) (arrayItems (getField data (js ''tags''))));
                          html = addLazyLoadingToImages (mdRender h (fmContent f))
                      in case toAbsoluteUrl h st (getField data (js ''coverImage'')) of
                           Inl e \<Rightarrow> Inl e
                         | Inr coverAbs \<Rightarrow>
                             (case toAbsoluteUrl h st (VString (js ''/posts/'' @ sl @ js ''.html'')) of
                                Inl e \<Rightarrow> Inl e
                              | Inr postAbs \<Rightarrow>
                                  Inr \<lparr> slug = sl,
                                        title = trim (toStr (getField data (js ''title''))),
                                        date = d,
                                        isoDate = toISOString h d,
                                        formattedDate = formatDate h d,
                                        category = trim (toStr (getField data (js ''category''))),
                                        summary = trim (toStr (getField data (js ''summary''))),
                                        readingTime = trim (toStr (getField data (js ''readingTime''))),
                                        tags = tgs,
                                        tagSlugs = map (\<lambda>t. (t, slugify h t)) tgs,
                                        coverImage = toPublicUrl st (getField data (js ''coverImage'')),
                                        coverImageAbsolute = coverAbs,
                                        url = toPublicUrl st (VString (js ''/posts/'' @ sl @ js ''.html'')),
                                        absoluteUrl = postAbs,
                                        htmlContent = html,
                                        plainText = stripHtml html \<rparr>))))"

text \<open>The loop stops at the first file that throws.\<close>

fun loadAll :: "host \<Rightarrow> site \<Rightarrow> post_file list \<Rightarrow> error + post list" where
  "loadAll h st [] = Inr []"
| "loadAll h st (f # fs) =
     (case loadPost h st f of
        Inl e \<Rightarrow> Inl e
      | Inr p \<Rightarrow> (case loadAll h st fs of Inl e \<Rightarrow> Inl e | Inr ps \<Rightarrow> Inr (p # ps)))"

definition loadPosts :: "host \<Rightarrow> site \<Rightarrow> post_file list \<Rightarrow> error + post list" where
  "loadPosts h st dir =
     (case loadAll h st (filter (\<lambda>f. endsWith (fileName f) (js ''.md'')) dir) of
        Inl e \<Rightarrow> Inl e
      | Inr posts \<Rightarrow> Inr (sortBy (\<lambda>a b. date b - date a) posts))"

section \<open>The tag map\<close>

record tag_entry =
  entryTitle :: jsstring
  entrySummary :: jsstring
  entryCategory :: jsstring
  entryDate :: jsstring
  entryUrl :: jsstring
  entryCoverImage :: jsstring

definition tagEntry :: "post \<Rightarrow> tag_entry" where
  "tagEntry p =
     \<lparr> entryTitle = title p, entrySummary = summary p, entryCategory = category p,
       entryDate = formattedDate p, entryUrl = url p, entryCoverImage = coverImage p \<rparr>"

type_synonym tags_map = "(jsstring \<times> tag_entry list) list"

text \<open>
  The body of the inner loop of \<^verbatim>\<open>buildTagsMap\<close> (lines 200 to 213). The test
  \<^verbatim>\<open>!tagsMap[tag]\<close> reads through the prototype: under a name that \<^verbatim>\<open>Object.prototype\<close>
  has, it finds a function or an object, no array is created, and the call of
  \<^verbatim>\<open>push\<close> throws.
\<close>

definition pushEntry :: "tags_map \<Rightarrow> jsstring \<Rightarrow> tag_entry \<Rightarrow> error + tags_map" where
  "pushEntry m tag e =
     (case map_of m tag of
        Some es \<Rightarrow> Inr (map (\<lambda>(k, v). if k = tag then (k, v @ [e]) else (k, v)) m)
      | None \<Rightarrow>
          if map_of objectPrototype tag \<noteq> None
          then Inl (TypeError (js ''tagsMap[tag].push is not a function''))
          else Inr (m @ [(tag, [e])]))"

fun pushTags :: "tags_map \<Rightarrow> tag_entry \<Rightarrow> jsstring list \<Rightarrow> error + tags_map" where
  "pushTags m e [] = Inr m"
| "pushTags m e (t # ts) =
     (case pushEntry m t e of Inl err \<Rightarrow> Inl err | Inr m' \<Rightarrow> pushTags m' e ts)"

fun collectTags :: "tags_map \<Rightarrow> post list \<Rightarrow> error + tags_map" where
  "collectTags m [] = Inr m"
| "collectTags m (p # ps) =
     (case pushTags m (tagEntry p) (tags p) of
        Inl err \<Rightarrow> Inl err
      | Inr m' \<Rightarrow> collectTags m' ps)"

text \<open>An assignment \<^verbatim>\<open>obj[key] = v\<close>: the property is overwritten in place, or created last.\<close>

definition setProp :: "(jsstring \<times> 'v) list \<Rightarrow> jsstring \<Rightarrow> 'v \<Rightarrow> (jsstring \<times> 'v) list" where
  "setProp obj k v =
     (if map_of obj k = None then obj @ [(k, v)]
      else map (\<lambda>(k', v'). if k' = k then (k', v) else (k', v')) obj)"

definition ownValue :: "tags_map \<Rightarrow> jsstring \<Rightarrow> tag_entry list" where
  "ownValue m k = (case map_of m k of Some es \<Rightarrow> es | None \<Rightarrow> [])"

text \<open>
  \<^verbatim>\<open>buildTagsMap\<close> (lines 196 to 224): the keys of the collected map are sorted and a
  second object receives the properties in that order. The result is that object;
  \<open>ownKeys\<close> is the order in which its readers find the tags.
\<close>

definition buildTagsMap :: "host \<Rightarrow> post list \<Rightarrow> error + tags_map" where
  "buildTagsMap h posts =
     (case collectTags [] posts of
        Inl err \<Rightarrow> Inl err
      | Inr m \<Rightarrow>
          Inr (foldl (\<lambda>sorted tag. setProp sorted tag (ownValue m tag)) []
                 (sortBy (localeCompare h) (ownKeys m))))"

definition tagsMapEntries :: "tags_map \<Rightarrow> (jsstring \<times> tag_entry list) list" where
  "tagsMapEntries m = map (\<lambda>k. (k, ownValue m k)) (ownKeys m)"

text \<open>
  The words of the claim about the tag map: the summaries of the posts that have a tag,
  in the order of the collection (a post that lists the tag twice is there twice).
\<close>

definition tagEntries :: "jsstring \<Rightarrow> post list \<Rightarrow> tag_entry list" where
  "tagEntries tag posts =
     concat (map (\<lambda>p. map (\<lambda>t. tagEntry p) (filter (\<lambda>t. t = tag) (tags p))) posts)"


section \<open>Related posts\<close>







section \<open>The sitemap\<close>

text \<open>
  A page record, as \<^verbatim>\<open>main\<close> and the page builders push them: the path of the page
  (the property \<^verbatim>\<open>file\<close>) and
  its last modification. The source keeps the time as the text \<^verbatim>\<open>toISOString\<close> gave and
  \<^verbatim>\<open>writeSitemap\<close> reads it back with \<^verbatim>\<open>new Date\<close>; the record keeps the point in time.
\<close>

record page =
  pageFile :: jsstring
  lastmod :: int

text \<open>The first loop of \<^verbatim>\<open>writeSitemap\<close> (lines 558 to 568), with its set \<^verbatim>\<open>seen\<close>.\<close>

fun uniquePages :: "jsstring list \<Rightarrow> page list \<Rightarrow> page list" where
  "uniquePages seen [] = []"
| "uniquePages seen (p # ps) =
     (if pageFile p \<in> set seen then uniquePages seen ps
      else p # uniquePages (pageFile p # seen) ps)"

text \<open>A \<^verbatim>\<open>map\<close> whose function can throw stops at the first element that does.\<close>

fun mapE :: "('a \<Rightarrow> error + 'b) \<Rightarrow> 'a list \<Rightarrow> error + 'b list" where
  "mapE g [] = Inr []"
| "mapE g (x # xs) =
     (case g x of
        Inl e \<Rightarrow> Inl e
      | Inr y \<Rightarrow> (case mapE g xs of Inl e \<Rightarrow> Inl e | Inr ys \<Rightarrow> Inr (y # ys)))"

definition newline :: jsstring where
  "newline = [0x0A]"

definition urlEntry :: "jsstring \<Rightarrow> jsstring \<Rightarrow> jsstring" where
  "urlEntry loc stamp =
     js ''  <url>'' @ newline @ js ''    <loc>'' @ escapeXml loc @ js ''</loc>'' @ newline
     @ js ''    <lastmod>'' @ escapeXml stamp @ js ''</lastmod>'' @ newline @ js ''  </url>''"

definition sitemapUrl :: "host \<Rightarrow> site \<Rightarrow> page \<Rightarrow> error + jsstring" where
  "sitemapUrl h st p =
     (case toAbsoluteUrl h st (VString (pageFile p)) of
        Inl e \<Rightarrow> Inl e
      | Inr loc \<Rightarrow> Inr (urlEntry loc (toISOString h (lastmod p))))"

definition sitemapHead :: jsstring where
  \<open>sitemapHead =
     js ''<?xml version="1.0" encoding="UTF-8"?>'' @ newline
     @ js ''<urlset xmlns="http://www.sitemaps.org/schemas/sitemap/0.9">'' @ newline\<close>

definition sitemapFoot :: jsstring where
  "sitemapFoot = newline @ js ''</urlset>''"

text \<open>\<^verbatim>\<open>writeSitemap\<close> (lines 557 to 583): the text it writes to \<^verbatim>\<open>sitemap.xml\<close>.\<close>

definition writeSitemap :: "host \<Rightarrow> site \<Rightarrow> page list \<Rightarrow> error + jsstring" where
  "writeSitemap h st pages =
     (case mapE (sitemapUrl h st) (uniquePages [] pages) of
        Inl e \<Rightarrow> Inl e
      | Inr urls \<Rightarrow> Inr (sitemapHead @ join newline urls @ sitemapFoot))"

section \<open>The build\<close>













text \<open>The words of the claims about validation.\<close>

definition invalidHeader :: "(jsstring \<times> jsvalue) list \<Rightarrow> bool" where
  "invalidHeader data \<longleftrightarrow>
     missingFields data \<noteq> [] \<or> \<not> isNonEmptyArray (getField data (js ''tags''))"



definition isPostFile :: "post_file \<Rightarrow> bool" where
  "isPostFile f \<longleftrightarrow> endsWith (fileName f) (js ''.md'')"

definition loads :: "host \<Rightarrow> site \<Rightarrow> post_file \<Rightarrow> bool" where
  "loads h st f \<longleftrightarrow> (case loadPost h st f of Inr p \<Rightarrow> True | Inl e \<Rightarrow> False)"


section \<open>Cards, options and feed items\<close>

text \<open>
  The template literals of the source span lines: \<open>line n text\<close> is a line break, the
  indentation of \<open>n\<close> spaces and the text of the line. The code unit 0xB7 is the middle
  dot between the category and the date.
\<close>

definition line :: "nat \<Rightarrow> string \<Rightarrow> jsstring" where
  "line n text = newline @ replicate n 0x20 @ js text"

text \<open>
  The read \<^verbatim>\<open>post.tagSlugs[tag]\<close> inside a template literal: the own property, else the
  inherited one, else the text of \<^verbatim>\<open>undefined\<close>.
\<close>

definition readSlug :: "post \<Rightarrow> jsstring \<Rightarrow> jsstring" where
  "readSlug p tag =
     (case map_of (tagSlugs p) tag of
        Some s \<Rightarrow> s
      | None \<Rightarrow> (case map_of objectPrototype tag of Some v \<Rightarrow> v | None \<Rightarrow> js ''undefined''))"

definition tagLink :: "site \<Rightarrow> post \<Rightarrow> jsstring \<Rightarrow> jsstring" where
  \<open>tagLink st p tag =
     js ''<a class="tag-link" href="''
     @ toPublicUrl st (VString (js ''/tags/'' @ readSlug p tag @ js ''.html''))
     @ js ''">#'' @ escapeHtml tag @ js ''</a>''\<close>

text \<open>\<^verbatim>\<open>renderArticleCard\<close> (lines 467 to 490).\<close>

definition renderArticleCard :: "site \<Rightarrow> post \<Rightarrow> jsstring" where
  \<open>renderArticleCard st p =
     line 4 ''<article class="article-card">''
     @ line 6 ''<img class="card-cover" src="'' @ escapeHtml (coverImage p)
     @ js ''" alt="Capa de '' @ escapeHtml (title p) @ js ''" loading="lazy">''
     @ line 6 ''<div class="card-body">''
     @ line 8 ''<p class="card-meta">'' @ escapeHtml (category p) @ [0x20, 0xB7, 0x20]
     @ escapeHtml (formattedDate p) @ js ''</p>''
     @ line 8 ''<h2 class="card-title"><a href="'' @ escapeHtml (url p) @ js ''">''
     @ escapeHtml (title p) @ js ''</a></h2>''
     @ line 8 ''<p class="card-summary">'' @ escapeHtml (summary p) @ js ''</p>''
     @ line 8 ''<div class="tags-row">'' @ concat (map (tagLink st p) (tags p)) @ js ''</div>''
     @ line 6 ''</div>''
     @ line 4 ''</article>''
     @ line 2 []\<close>

text \<open>\<^verbatim>\<open>renderRelatedCard\<close> (lines 492 to 500).\<close>

definition renderRelatedCard :: "post \<Rightarrow> jsstring" where
  \<open>renderRelatedCard p =
     line 4 ''<article class="related-card">''
     @ line 6 ''<p class="card-meta">'' @ escapeHtml (category p) @ js ''</p>''
     @ line 6 ''<h3><a href="'' @ escapeHtml (url p) @ js ''">'' @ escapeHtml (title p)
     @ js ''</a></h3>''
     @ line 6 ''<p>'' @ escapeHtml (summary p) @ js ''</p>''
     @ line 4 ''</article>''
     @ line 2 []\<close>

text \<open>The card of a tag page, in \<^verbatim>\<open>buildTagPages\<close> (lines 430 to 441).\<close>

definition renderTagCard :: "tag_entry \<Rightarrow> jsstring" where
  \<open>renderTagCard e =
     line 8 ''<article class="article-card">''
     @ line 10 ''<img class="card-cover" src="'' @ escapeHtml (entryCoverImage e)
     @ js ''" alt="Capa de '' @ escapeHtml (entryTitle e) @ js ''" loading="lazy">''
     @ line 10 ''<div class="card-body">''
     @ line 12 ''<p class="card-meta">'' @ escapeHtml (entryCategory e) @ [0x20, 0xB7, 0x20]
     @ escapeHtml (entryDate e) @ js ''</p>''
     @ line 12 ''<h2 class="card-title"><a href="'' @ escapeHtml (entryUrl e) @ js ''">''
     @ escapeHtml (entryTitle e) @ js ''</a></h2>''
     @ line 12 ''<p class="card-summary">'' @ escapeHtml (entrySummary e) @ js ''</p>''
     @ line 10 ''</div>''
     @ line 8 ''</article>''
     @ line 6 []\<close>

text \<open>An option of the category and tag filters, in \<^verbatim>\<open>buildBlogPage\<close> (lines 264 to 270).\<close>

definition renderOption :: "jsstring \<Rightarrow> jsstring" where
  \<open>renderOption v =
     js ''<option value="'' @ escapeHtml v @ js ''">'' @ escapeHtml v @ js ''</option>''\<close>

text \<open>An item of the feed, in \<^verbatim>\<open>writeRss\<close> (lines 598 to 606).\<close>

definition rssItem :: "host \<Rightarrow> post \<Rightarrow> jsstring" where
  "rssItem h p =
     line 4 ''<item>''
     @ line 6 ''<title>'' @ escapeXml (title p) @ js ''</title>''
     @ line 6 ''<description>'' @ escapeXml (summary p) @ js ''</description>''
     @ line 6 ''<link>'' @ escapeXml (absoluteUrl p) @ js ''</link>''
     @ line 6 ''<guid>'' @ escapeXml (absoluteUrl p) @ js ''</guid>''
     @ line 6 ''<pubDate>'' @ toUTCString h (date p) @ js ''</pubDate>''
     @ line 6 ''<category>'' @ escapeXml (category p) @ js ''</category>''
     @ line 4 ''</item>''"

text \<open>
  The words of the claim about escaping: the code units that open or close markup, the
  five entities, and a post whose tag slugs are what \<^verbatim>\<open>loadPosts\<close> makes of its tags.
\<close>

definition isMarkup :: "jschar \<Rightarrow> bool" where
  "isMarkup c \<longleftrightarrow> c = 0x3C \<or> c = 0x3E \<or> c = 0x22 \<or> c = 0x27"

definition entities :: "jsstring list" where
  "entities = [js ''&amp;'', js ''&lt;'', js ''&gt;'', js ''&quot;'', js ''&#39;'']"

definition slugged :: "host \<Rightarrow> post \<Rightarrow> bool" where
  "slugged h p \<longleftrightarrow> tagSlugs p = map (\<lambda>t. (t, slugify h t)) (tags p)"


definition entitiesOnly :: "jsstring \<Rightarrow> bool" where
  "entitiesOnly s \<longleftrightarrow>
     (\<forall>i < length s. s ! i = 0x26 \<longrightarrow> (\<exists>e \<in> set entities. startsWith (drop i s) e))"

text \<open>The markup of the link to a tag page: that of its two pieces of text and of the base path.\<close>

definition tagLinkMarkup :: "site \<Rightarrow> jsstring" where
  \<open>tagLinkMarkup st =
     filter isMarkup (js ''<a class="tag-link" href="'') @ filter isMarkup (basePath st)
     @ filter isMarkup (js ''/tags/'') @ filter isMarkup (js ''.html'')
     @ filter isMarkup (js ''">#'') @ filter isMarkup (js ''</a>'')\<close>


section \<open>An instance of the runtime\<close>

text \<open>
  The runtime on the inputs the examples below use. On a string of ASCII code units
  Unicode normalisation changes nothing and \<^verbatim>\<open>toLowerCase\<close> maps the letters A to Z
  only; \<^verbatim>\<open>localeCompare\<close> is given on strings of digits, where it compares code unit
  by code unit.
\<close>

fun compareUnits :: "jsstring \<Rightarrow> jsstring \<Rightarrow> int" where
  "compareUnits [] [] = 0"
| "compareUnits [] (y # ys) = - 1"
| "compareUnits (x # xs) [] = 1"
| "compareUnits (x # xs) (y # ys) =
     (if x < y then - 1 else if y < x then 1 else compareUnits xs ys)"

text \<open>
  The origin of a URL, for the few shapes the examples use: a URL with the scheme
  \<^verbatim>\<open>https\<close> or \<^verbatim>\<open>http\<close> has the origin up to the first slash after the host, a URL that
  starts with two slashes takes the scheme of its base, anything else is a path under
  the base.
\<close>

definition hostPart :: "jsstring \<Rightarrow> jsstring" where
  "hostPart s = takeWhile (\<lambda>c. c \<noteq> 0x2F) s"

definition exampleOrigin :: "jsstring \<Rightarrow> jsstring option \<Rightarrow> jsstring option" where
  "exampleOrigin u base =
     (if startsWith u (js ''https://'') then Some (js ''https://'' @ hostPart (drop 8 u))
      else if startsWith u (js ''http://'') then Some (js ''http://'' @ hostPart (drop 7 u))
      else case base of
             None \<Rightarrow> None
           | Some b \<Rightarrow>
               if \<not> startsWith b (js ''https://'') then None
               else if startsWith u (js ''//'') then Some (js ''https://'' @ hostPart (drop 2 u))
               else Some (js ''https://'' @ hostPart (drop 8 b)))"

text \<open>The decimal numeral of a number.\<close>

function decimal :: "nat \<Rightarrow> jsstring" where
  "decimal n = (if n < 10 then [0x30 + of_nat n] else decimal (n div 10) @ [0x30 + of_nat (n mod 10)])"
  by pat_completeness auto
termination
  by (relation "measure id") auto

text \<open>
  A date of the metadata header is given as a number of milliseconds (any other value
  is no date here), and a point in time is printed as that number where the runtime
  prints a calendar date.
\<close>

definition exampleHost :: host where
  "exampleHost =
     \<lparr> normalizeNFD = (\<lambda>s. s),
       toLowerCase = map asciiLower,
       mdRender = (\<lambda>s. js ''<p>'' @ s @ js ''</p>'' @ [0x0A]),
       parseDate = (\<lambda>v. case v of
                      VOther _ s \<Rightarrow> if s \<noteq> [] \<and> list_all isDigit s then Some (int (digitsValue s)) else None
                    | _ \<Rightarrow> None),
       toISOString = (\<lambda>t. js ''iso '' @ decimal (nat t)),
       toUTCString = (\<lambda>t. js ''utc '' @ decimal (nat t)),
       formatDate = (\<lambda>t. js ''dia '' @ decimal (nat t)),
       urlOrigin = exampleOrigin,
       urlResolve = (\<lambda>p origin. Some (origin @ p)),
       localeCompare = compareUnits,
       clock = (\<lambda>n. 5000 + int n) \<rparr>"

definition exampleSite :: site where
  "exampleSite =
     \<lparr> siteName = js ''Miguel Angelo Moutinho'',
       siteDescription = js ''Blog'',
       origin = js ''https://miguel-br-dl.github.io'',
       basePath = [],
       adsClient = js ''ca-pub-2236242824534513'' \<rparr>"

text \<open>A post file with a complete metadata header: its name, date, category and tags.\<close>

definition exampleFile :: "string \<Rightarrow> nat \<Rightarrow> string \<Rightarrow> string list \<Rightarrow> post_file" where
  "exampleFile name d cat tgs =
     \<lparr> fileName = js name,
       fmData =
         [(js ''title'', VString (js name)),
          (js ''date'', VOther True (decimal d)),
          (js ''category'', VString (js cat)),
          (js ''summary'', VString (js ''Resumo'')),
          (js ''readingTime'', VString (js ''5 min'')),
          (js ''tags'', VArray (map (\<lambda>t. VString (js t)) tgs)),
          (js ''coverImage'', VString (js ''/assets/images/capa.png''))],
       fmContent = js ''Texto.'' \<rparr>"







text \<open>A post with the fields that matter for related posts.\<close>

definition examplePost :: "string \<Rightarrow> int \<Rightarrow> string \<Rightarrow> string list \<Rightarrow> post" where
  "examplePost name d cat tgs =
     \<lparr> slug = js name, title = js name, date = d, isoDate = toISOString exampleHost d,
       formattedDate = formatDate exampleHost d, category = js cat, summary = js ''Resumo'',
       readingTime = js ''5 min'', tags = map js tgs,
       tagSlugs = map (\<lambda>t. (js t, slugify exampleHost (js t))) tgs,
       coverImage = js ''/assets/images/capa.png'',
       coverImageAbsolute = js ''https://miguel-br-dl.github.io/assets/images/capa.png'',
       url = js ''/posts/'' @ js name @ js ''.html'',
       absoluteUrl = js ''https://miguel-br-dl.github.io/posts/'' @ js name @ js ''.html'',
       htmlContent = js ''<p>Texto.</p>'' @ [0x0A], plainText = js ''Texto.'' \<rparr>"


definition postA :: post where "postA = examplePost ''a'' 3000 ''Tech'' [''x'', ''y'']"














text \<open>A mapping with no names, and two posts whose tags are numerals.\<close>

definition noParams :: params where
  "noParams key = None"

definition numeralTags :: "post list" where
  "numeralTags = [examplePost ''a'' 2000 ''Tech'' [''10''], examplePost ''b'' 1000 ''Tech'' [''9'']]"


text \<open>A post whose fields hold markup.\<close>

definition postX :: post where
  "postX = (examplePost ''x'' 3000 ''R&D'' [''a&b'', ''<i>''])
             \<lparr> title := js ''<script>alert(1)</script>'', summary := js ''Tom & Jerry'' \<rparr>"


text \<open>
  A post file whose name has 79 letters, a hyphen and one more letter before the
  extension, and one whose body holds an image tag in capital letters.
\<close>

definition longName :: string where
  "longName = replicate 79 CHR ''a'' @ ''-b.md''"

definition longNamed :: post_file where
  "longNamed = exampleFile longName 1000 ''Tech'' [''x'']"

definition capitalImage :: post_file where
  \<open>capitalImage =
     (exampleFile ''imagem.md'' 1000 ''Tech'' [''x''])
       \<lparr> fmContent := js ''Veja <IMG src="a.png"> aqui'' \<rparr>\<close>


chapter \<open>Properties\<close>

section \<open>Slugs\<close>

lemma hyphenate_chars:
  "c \<in> set (hyphenate b s) \<Longrightarrow> isSlugChar c \<or> c = 0x2D"
  by (induction b s rule: hyphenate.induct) (auto split: if_splits)

lemma stripEdgeHyphens_subset:
  "set (stripEdgeHyphens s) \<subseteq> set s"
  by (cases s) (auto simp: stripEdgeHyphens_def Let_def dest: in_set_butlastD)

lemma slugify_chars:
  "c \<in> set (slugify h text) \<Longrightarrow> isSlugChar c \<or> c = 0x2D"
  unfolding slugify_def
  using hyphenate_chars stripEdgeHyphens_subset in_set_takeD by (metis subsetD)

lemma slugify_length:
  "length (slugify h text) \<le> 80"
  by (simp add: slugify_def)



section \<open>Sorting\<close>

text \<open>
  A comparator that orders by a key sorts as the library's stable insertion sort by
  that key does.
\<close>

lemma insertBy_insort_key:
  fixes f :: "'a \<Rightarrow> 'k::linorder"
  assumes "\<And>x y. cmp x y \<le> 0 \<longleftrightarrow> f x \<le> f y"
  shows "insertBy cmp x ys = insort_key f x ys"
  by (induction ys) (simp_all add: assms)

lemma sortBy_sort_key:
  fixes f :: "'a \<Rightarrow> 'k::linorder"
  assumes "\<And>x y. cmp x y \<le> 0 \<longleftrightarrow> f x \<le> f y"
  shows "sortBy cmp xs = sort_key f xs"
  by (induction xs) (simp_all add: sortBy_def insertBy_insort_key [of cmp f, OF assms])

section \<open>The loaded collection\<close>




text \<open>What a file that loads gives the post.\<close>

lemma loadPost_Inr:
  assumes "loadPost h st f = Inr p"
  shows "validateFrontmatter (fileName f) (fmData f) = Inr ()"
    and "parseDate h (getField (fmData f) (js ''date'')) = Some (date p)"
    and "slug p = slugify h (basenameMd (fileName f))"
    and "htmlContent p = addLazyLoadingToImages (mdRender h (fmContent f))"
    and "tags p = filter (\<lambda>t. t \<noteq> []) (map (\<lambda>t. trim (toStr t)) (arrayItems (getField (fmData f) (js ''tags''))))"
    and "tagSlugs p = map (\<lambda>t. (t, slugify h t)) (tags p)"
  using assms by (auto simp: loadPost_def Let_def split: sum.splits option.splits)

lemma toAbsoluteUrl_exampleHost:
  "\<exists>u. toAbsoluteUrl exampleHost st v = Inr u"
  by (simp add: toAbsoluteUrl_def exampleHost_def Let_def)

lemma loadPost_exampleHost:
  assumes "validateFrontmatter (fileName f) (fmData f) = Inr ()"
    and "parseDate exampleHost (getField (fmData f) (js ''date'')) = Some d"
  shows "\<exists>p. loadPost exampleHost st f = Inr p \<and> date p = d"
proof -
  obtain u where u: "toAbsoluteUrl exampleHost st (getField (fmData f) (js ''coverImage'')) = Inr u"
    using toAbsoluteUrl_exampleHost by blast
  obtain w where w: "toAbsoluteUrl exampleHost st
      (VString (js ''/posts/'' @ slugify exampleHost (basenameMd (fileName f)) @ js ''.html'')) = Inr w"
    using toAbsoluteUrl_exampleHost by blast
  show ?thesis
    by (simp add: loadPost_def Let_def assms u w)
qed

lemma exampleFile_valid:
  "tgs \<noteq> [] \<Longrightarrow> validateFrontmatter (fileName (exampleFile name d cat tgs)) (fmData (exampleFile name d cat tgs)) = Inr ()"
  by (simp add: validateFrontmatter_def missingFields_def REQUIRED_FRONTMATTER_FIELDS_def
      exampleFile_def js_def getField_def isNonEmptyArray_def)

lemma exampleFile_date:
  "parseDate exampleHost (getField (fmData (exampleFile name 1000 cat tgs)) (js ''date'')) = Some 1000"
  "parseDate exampleHost (getField (fmData (exampleFile name 2000 cat tgs)) (js ''date'')) = Some 2000"
  "parseDate exampleHost (getField (fmData (exampleFile name 3000 cat tgs)) (js ''date'')) = Some 3000"
  by (simp_all add: exampleFile_def getField_def js_def exampleHost_def isDigit_def digitsValue_def)

lemma exampleFile_loads:
  assumes "tgs \<noteq> []"
    and "parseDate exampleHost (getField (fmData (exampleFile name d cat tgs)) (js ''date'')) = Some t"
  shows "\<exists>p. loadPost exampleHost st (exampleFile name d cat tgs) = Inr p \<and> date p = t"
  using loadPost_exampleHost [OF exampleFile_valid [OF assms(1)] assms(2)] .








section \<open>Related posts\<close>










lemma examplePost_sel:
  "slug (examplePost n d c t) = js n"
  "date (examplePost n d c t) = d"
  "category (examplePost n d c t) = js c"
  "tags (examplePost n d c t) = map js t"
  by (simp_all add: examplePost_def)











section \<open>Validation\<close>






















section \<open>Escaping\<close>

lemma replaceAllChar_append:
  "replaceAllChar c r (a @ b) = replaceAllChar c r a @ replaceAllChar c r b"
  by (simp add: replaceAllChar_def)

lemma escapeHtml_append:
  "escapeHtml (a @ b) = escapeHtml a @ escapeHtml b"
  by (simp add: escapeHtml_def replaceAllChar_append)

lemma escapeHtml_single:
  "escapeHtml [c] = escapeChar c"
  by (simp add: escapeHtml_def escapeChar_def replaceAllChar_def js_def)

lemma escapeHtml_Nil: "escapeHtml [] = []"
  by (simp add: escapeHtml_def replaceAllChar_def)

lemma escapeHtml_Cons:
  "escapeHtml (c # s) = escapeChar c @ escapeHtml s"
  using escapeHtml_append [of "[c]" s] by (simp add: escapeHtml_single)





section \<open>The sitemap\<close>



lemma uniquePages_subset:
  "set (uniquePages seen ps) \<subseteq> set ps"
  by (induction seen ps rule: uniquePages.induct) auto



























section \<open>Templates\<close>

text \<open>
  The matcher finds the placeholders and nothing else: a text that starts with two
  opening braces, white space, a name, white space and two closing braces matches, with
  that name and the text after the braces; and a text that matches has this shape.
\<close>

lemma isKeyChar_not_space: "isKeyChar c \<Longrightarrow> \<not> isSpace c"
  by (auto simp: isKeyChar_def isSpace_def word_le_nat_alt)

lemma brace_classes: "\<not> isSpace 0x7D" "\<not> isKeyChar 0x7D" "\<not> isSpace 0x7B"
  by (simp_all add: isSpace_def isKeyChar_def)

lemma isSpace_not_key: "isSpace c \<Longrightarrow> \<not> isKeyChar c"
  using isKeyChar_not_space by blast

lemma matchPlaceholder_placeholder:
  assumes "list_all isSpace ws1" "key \<noteq> []" "list_all isKeyChar key" "list_all isSpace ws2"
  shows "matchPlaceholder (js ''{{'' @ ws1 @ key @ ws2 @ js ''}}'' @ rest) = Some (key, rest)"
proof -
  let ?tail = "ws2 @ js ''}}'' @ rest"
  obtain k ks where key: "key = k # ks" using assms(2) by (cases key) auto
  with assms(3) have k: "\<not> isSpace k" by (simp add: isKeyChar_not_space)
  have 1: "dropWhile isSpace (ws1 @ key @ ?tail) = key @ ?tail"
    using assms(1) k by (simp add: dropWhile_append2 list_all_iff key)
  have t: "takeWhile isKeyChar ?tail = []"
    using assms(4) by (cases ws2) (simp_all add: js_def brace_classes isSpace_not_key)
  have 2: "takeWhile isKeyChar (key @ ?tail) = key"
    using assms(3) t by (simp add: takeWhile_append2 list_all_iff)
  have d: "dropWhile isKeyChar ?tail = ?tail"
    using assms(4) by (cases ws2) (simp_all add: js_def brace_classes isSpace_not_key)
  have 3: "dropWhile isKeyChar (key @ ?tail) = ?tail"
    using assms(3) d by (simp add: dropWhile_append2 list_all_iff)
  have 4: "dropWhile isSpace ?tail = js ''}}'' @ rest"
    using assms(4) by (simp add: dropWhile_append2 list_all_iff js_def brace_classes)
  have 5: "startsWith (js ''{{'' @ ws1 @ key @ ?tail) (js ''{{'')"
    "drop 2 (js ''{{'' @ ws1 @ key @ ?tail) = ws1 @ key @ ?tail"
    "startsWith (js ''}}'' @ rest) (js ''}}'')" "drop 2 (js ''}}'' @ rest) = rest"
    by (simp_all add: startsWith_def js_def)
  show ?thesis
    unfolding matchPlaceholder_def by (simp only: 5 1 2 3 4 Let_def assms(2) if_True simp_thms)
qed

lemma matchPlaceholder_shape:
  assumes "matchPlaceholder s = Some (key, rest)"
  shows "\<exists>ws1 ws2. s = js ''{{'' @ ws1 @ key @ ws2 @ js ''}}'' @ rest
           \<and> list_all isSpace ws1 \<and> key \<noteq> [] \<and> list_all isKeyChar key \<and> list_all isSpace ws2"
proof -
  define r0 where "r0 = drop 2 s"
  define r1 where "r1 = dropWhile isSpace r0"
  define r2 where "r2 = dropWhile isKeyChar r1"
  define r3 where "r3 = dropWhile isSpace r2"
  from assms have st: "startsWith s (js ''{{'')" and key: "key = takeWhile isKeyChar r1" "key \<noteq> []"
    and end_: "startsWith r3 (js ''}}'')" and rest: "rest = drop 2 r3"
    by (auto simp: matchPlaceholder_def Let_def r0_def r1_def r2_def r3_def split: if_splits)
  from st have s: "s = js ''{{'' @ r0"
    unfolding r0_def startsWith_def by (metis append_take_drop_id length_map js_def list.size(3,4) One_nat_def Suc_1 length_Cons)
  have a: "r0 = takeWhile isSpace r0 @ r1" by (simp add: r1_def)
  have b: "r1 = key @ r2" by (simp add: key r2_def)
  have c: "r2 = takeWhile isSpace r2 @ r3" by (simp add: r3_def)
  from end_ have d: "r3 = js ''}}'' @ rest"
    unfolding rest startsWith_def by (metis append_take_drop_id length_map js_def list.size(3,4) One_nat_def Suc_1 length_Cons)
  have "s = js ''{{'' @ takeWhile isSpace r0 @ key @ takeWhile isSpace r2 @ js ''}}'' @ rest"
    using s a b c d by metis
  moreover have "list_all isSpace (takeWhile isSpace r0)" "list_all isSpace (takeWhile isSpace r2)"
    "list_all isKeyChar key"
    by (auto simp: list_all_iff key dest: set_takeWhileD)
  ultimately show ?thesis using key(2) by blast
qed

lemma renderTemplate_placeholder:
  assumes "list_all isSpace ws1" "key \<noteq> []" "list_all isKeyChar key" "list_all isSpace ws2"
  shows "renderTemplate (js ''{{'' @ ws1 @ key @ ws2 @ js ''}}'' @ rest) ps
           = templateValue ps key @ renderTemplate rest ps"
proof -
  obtain c cs where s: "js ''{{'' @ ws1 @ key @ ws2 @ js ''}}'' @ rest = c # cs"
    by (simp add: js_def)
  show ?thesis
    unfolding s renderTemplate.simps
    by (simp add: s [symmetric] matchPlaceholder_placeholder [OF assms])
qed

lemma renderTemplate_text:
  "matchPlaceholder (c # cs) = None \<Longrightarrow> renderTemplate (c # cs) ps = c # renderTemplate cs ps"
  by simp

lemma templateValue_cases:
  "ps key = Some (Some v) \<Longrightarrow> templateValue ps key = v"
  "ps key = Some None \<Longrightarrow> templateValue ps key = []"
  "ps key = None \<Longrightarrow> map_of objectPrototype key = None \<Longrightarrow> templateValue ps key = []"
  by (simp_all add: templateValue_def)


text \<open>
  Claim C4. A placeholder whose name the mapping does not have is replaced by the empty
  string, unless \<^verbatim>\<open>Object.prototype\<close> has the name: the read \<^verbatim>\<open>params[key]\<close> then finds the
  inherited property, which is neither \<^verbatim>\<open>undefined\<close> nor \<^verbatim>\<open>null\<close>, and the placeholder
  is replaced by the text of that property. With an empty mapping the placeholder
  \<^verbatim>\<open>{{ constructor }}\<close> becomes the text of the function \<^verbatim>\<open>Object\<close>.
\<close>

theorem renderTemplate_inherited_name:
  "renderTemplate (js ''<h1>{{ constructor }}</h1>'') noParams
     = js ''<h1>function Object() { [native code] }</h1>''"
  by (simp add: js_def matchPlaceholder_def startsWith_def isSpace_def isKeyChar_def templateValue_def
      noParams_def objectPrototype_def nativeFunction_def)

section \<open>External links\<close>

text \<open>What the renderer rule does to the attributes of an anchor, and when a link is external.\<close>

lemma map_of_attrSet:
  "map_of (attrSet name v as) = (map_of as)(name \<mapsto> v)"
  by (induction as) (auto simp: fun_eq_iff)

lemma link_open_external:
  assumes "isExternalLink h st (attrGet as (js ''href''))"
  shows "attrGet (link_open h st as) (js ''target'') = Some (js ''_blank'')"
    and "attrGet (link_open h st as) (js ''rel'') = Some (js ''noopener noreferrer'')"
    and "name \<noteq> js ''target'' \<Longrightarrow> name \<noteq> js ''rel'' \<Longrightarrow>
         attrGet (link_open h st as) name = attrGet as name"
  using assms by (simp_all add: link_open_def attrGet_def map_of_attrSet js_def)

lemma link_open_internal:
  "\<not> isExternalLink h st (attrGet as (js ''href'')) \<Longrightarrow> link_open h st as = as"
  by (simp add: link_open_def)

lemma isExternalLink_exempt:
  assumes "startsWith (trim raw) (js ''#'') \<or> startsWith (trim raw) (js ''/'')
     \<or> startsWithCI (trim raw) (js ''mailto:'') \<or> startsWithCI (trim raw) (js ''tel:'')
     \<or> startsWithCI (trim raw) (js ''javascript:'')"
  shows "\<not> isExternalLink h st (Some raw)"
  using assms by (auto simp: isExternalLink_def Let_def)

lemma isExternalLink_other_origin:
  assumes "trim raw \<noteq> []" "\<not> startsWith (trim raw) (js ''#'')" "\<not> startsWith (trim raw) (js ''/'')"
    and "\<not> startsWithCI (trim raw) (js ''mailto:'')" "\<not> startsWithCI (trim raw) (js ''tel:'')"
    and "\<not> startsWithCI (trim raw) (js ''javascript:'')"
    and "urlOrigin h (trim raw) (Some (origin st)) = Some linkOrigin"
    and "urlOrigin h (origin st) None = Some siteOrigin"
  shows "isExternalLink h st (Some raw) \<longleftrightarrow> linkOrigin \<noteq> siteOrigin"
proof -
  from assms(1) have "raw \<noteq> []" by (auto simp: trim_def)
  with assms show ?thesis by (simp add: isExternalLink_def Let_def)
qed


text \<open>
  Claim C5. An anchor whose address starts with two slashes names another host, and its
  origin differs from the site's; \<^verbatim>\<open>isExternalLink\<close> answers \<^verbatim>\<open>false\<close> for every address
  that starts with a slash, so the anchor keeps its attributes as they are. The same
  address written with its scheme gets the two attributes.
\<close>

theorem link_open_protocol_relative:
  "urlOrigin exampleHost (js ''//cdn.example.org/lib.js'') (Some (origin exampleSite))
     = Some (js ''https://cdn.example.org'')
   \<and> urlOrigin exampleHost (origin exampleSite) None = Some (js ''https://miguel-br-dl.github.io'')
   \<and> \<not> isExternalLink exampleHost exampleSite (Some (js ''//cdn.example.org/lib.js''))
   \<and> link_open exampleHost exampleSite [(js ''href'', js ''//cdn.example.org/lib.js'')]
       = [(js ''href'', js ''//cdn.example.org/lib.js'')]
   \<and> link_open exampleHost exampleSite [(js ''href'', js ''https://cdn.example.org/lib.js'')]
       = [(js ''href'', js ''https://cdn.example.org/lib.js''), (js ''target'', js ''_blank''),
          (js ''rel'', js ''noopener noreferrer'')]"
  by (simp add: link_open_def attrGet_def isExternalLink_def exampleHost_def exampleSite_def
      exampleOrigin_def hostPart_def startsWith_def startsWithCI_def asciiLower_def trim_def isSpace_def
      js_def Let_def)

section \<open>The tag map\<close>

text \<open>
  What holds of the tag map: under every tag stand the summaries of its posts in the
  order of the collection; the keys of the second object are in the order of the sorted
  keys; and when \<^verbatim>\<open>localeCompare\<close> orders by a collation key, the readers of the map
  find the array indices first, in numeric order, and then the other tags in
  alphabetical order. A map without numeral tags is in alphabetical order.
\<close>

lemma ownValue_absent: "k \<notin> fst ` set m \<Longrightarrow> ownValue m k = []"
  by (simp add: ownValue_def map_of_eq_None_iff [THEN iffD2])

lemma ownValue_append:
  "ownValue (m @ [(tag, v)]) k = (if k \<in> fst ` set m then ownValue m k else if k = tag then v else [])"
  by (induction m) (auto simp: ownValue_def)

lemma ownValue_update:
  "ownValue (map (\<lambda>(k, v). if k = tag then (k, v @ [e]) else (k, v)) m) k
     = (if k = tag \<and> tag \<in> fst ` set m then ownValue m k @ [e] else ownValue m k)"
  by (induction m) (force simp: ownValue_def)+

lemma keys_update:
  "map fst (map (\<lambda>(k, v). if k = tag then (k, v @ [e]) else (k, v)) m) = map fst m"
  by (induction m) auto

lemma pushEntry_cases:
  assumes "pushEntry m tag e = Inr m'"
  shows "(tag \<notin> fst ` set m \<and> m' = m @ [(tag, [e])])
       \<or> (tag \<in> fst ` set m \<and> m' = map (\<lambda>(k, v). if k = tag then (k, v @ [e]) else (k, v)) m)"
proof (cases "map_of m tag")
  case None
  then have "tag \<notin> fst ` set m" by (simp add: map_of_eq_None_iff)
  moreover from assms None have "m' = m @ [(tag, [e])]"
    by (simp add: pushEntry_def split: if_splits)
  ultimately show ?thesis by simp
next
  case (Some es)
  then have "tag \<in> fst ` set m" using map_of_eq_None_iff [of m tag] by simp
  moreover from assms Some have "m' = map (\<lambda>(k, v). if k = tag then (k, v @ [e]) else (k, v)) m"
    by (simp add: pushEntry_def)
  ultimately show ?thesis by simp
qed

lemma pushEntry_keys_list:
  assumes "pushEntry m tag e = Inr m'"
  shows "map fst m' = (if tag \<in> fst ` set m then map fst m else map fst m @ [tag])"
  using pushEntry_cases [OF assms] by (auto simp: keys_update)

lemma pushEntry_value:
  assumes "pushEntry m tag e = Inr m'"
  shows "ownValue m' k = ownValue m k @ (if k = tag then [e] else [])"
  using pushEntry_cases [OF assms]
proof
  assume "tag \<notin> fst ` set m \<and> m' = m @ [(tag, [e])]"
  then show ?thesis by (simp add: ownValue_append ownValue_absent)
next
  assume "tag \<in> fst ` set m \<and> m' = map (\<lambda>(k, v). if k = tag then (k, v @ [e]) else (k, v)) m"
  then show ?thesis by (simp add: ownValue_update)
qed

lemma pushEntry_distinct:
  "pushEntry m tag e = Inr m' \<Longrightarrow> distinct (map fst m) \<Longrightarrow> distinct (map fst m')"
  by (simp add: pushEntry_keys_list)

lemma pushEntry_keys:
  assumes "pushEntry m tag e = Inr m'"
  shows "fst ` set m' = insert tag (fst ` set m)"
proof -
  have "fst ` set m' = set (map fst m')" by simp
  also have "\<dots> = insert tag (fst ` set m)"
    unfolding pushEntry_keys_list [OF assms] by auto
  finally show ?thesis .
qed

lemma pushTags_Inr:
  "pushTags m e ts = Inr m' \<Longrightarrow>
   (distinct (map fst m) \<longrightarrow> distinct (map fst m'))
   \<and> fst ` set m' = fst ` set m \<union> set ts
   \<and> ownValue m' k = ownValue m k @ map (\<lambda>t. e) (filter (\<lambda>t. t = k) ts)"
proof (induction ts arbitrary: m)
  case Nil
  then show ?case by simp
next
  case (Cons t ts)
  from Cons.prems obtain m1 where 1: "pushEntry m t e = Inr m1" and 2: "pushTags m1 e ts = Inr m'"
    by (auto split: sum.splits)
  from Cons.IH [OF 2] pushEntry_distinct [OF 1] pushEntry_keys [OF 1] pushEntry_value [OF 1, of k]
  show ?case by auto
qed

lemma collectTags_Inr:
  "collectTags m ps = Inr m' \<Longrightarrow>
   (distinct (map fst m) \<longrightarrow> distinct (map fst m'))
   \<and> fst ` set m' = fst ` set m \<union> (\<Union>p \<in> set ps. set (tags p))
   \<and> ownValue m' k = ownValue m k @ tagEntries k ps"
proof (induction ps arbitrary: m)
  case Nil
  then show ?case by (simp add: tagEntries_def)
next
  case (Cons p ps)
  from Cons.prems obtain m1 where 1: "pushTags m (tagEntry p) (tags p) = Inr m1"
    and 2: "collectTags m1 ps = Inr m'"
    by (auto split: sum.splits)
  from Cons.IH [OF 2] pushTags_Inr [OF 1, of k]
  show ?case by (auto simp: tagEntries_def)
qed

text \<open>The comparator sort keeps the elements, and the second object gets the keys in its order.\<close>

lemma set_insertBy: "set (insertBy cmp x ys) = insert x (set ys)"
  by (induction ys) auto

lemma distinct_insertBy: "distinct (insertBy cmp x ys) \<longleftrightarrow> x \<notin> set ys \<and> distinct ys"
  by (induction ys) (auto simp: set_insertBy)

lemma set_sortBy: "set (sortBy cmp xs) = set xs"
  by (induction xs) (simp_all add: sortBy_def set_insertBy)

lemma distinct_sortBy: "distinct (sortBy cmp xs) \<longleftrightarrow> distinct xs"
  using set_sortBy [of cmp] by (induction xs) (simp_all add: sortBy_def distinct_insertBy)

lemma set_ownKeys: "set (ownKeys m) = fst ` set m"
  by (auto simp: ownKeys_def)

lemma distinct_ownKeys: "distinct (map fst m) \<Longrightarrow> distinct (ownKeys m)"
  by (auto simp: ownKeys_def)

lemma foldl_setProp:
  "distinct ks \<Longrightarrow> set ks \<inter> fst ` set acc = {} \<Longrightarrow>
   foldl (\<lambda>sorted tag. setProp sorted tag (f tag)) acc ks = acc @ map (\<lambda>k. (k, f k)) ks"
proof (induction ks arbitrary: acc)
  case Nil
  then show ?case by simp
next
  case (Cons k ks)
  from Cons.prems have "map_of acc k = None" by (simp add: map_of_eq_None_iff)
  then have "setProp acc k (f k) = acc @ [(k, f k)]" by (simp add: setProp_def)
  moreover have "set ks \<inter> fst ` set (acc @ [(k, f k)]) = {}"
    using Cons.prems by auto
  ultimately show ?case using Cons.IH [of "acc @ [(k, f k)]"] Cons.prems by simp
qed

lemma ownValue_map:
  "ownValue (map (\<lambda>k. (k, ownValue m k)) ks) k = (if k \<in> set ks then ownValue m k else [])"
  by (induction ks) (auto simp: ownValue_def)

lemma buildTagsMap_Inr:
  assumes "buildTagsMap h posts = Inr r"
  shows "\<exists>m. collectTags [] posts = Inr m \<and> distinct (map fst m)
     \<and> r = map (\<lambda>k. (k, ownValue m k)) (sortBy (localeCompare h) (ownKeys m))"
proof -
  from assms obtain m where m: "collectTags [] posts = Inr m"
    and r: "r = foldl (\<lambda>sorted tag. setProp sorted tag (ownValue m tag)) []
                  (sortBy (localeCompare h) (ownKeys m))"
    by (auto simp: buildTagsMap_def split: sum.splits)
  from collectTags_Inr [OF m] have d: "distinct (map fst m)" by simp
  then have "distinct (sortBy (localeCompare h) (ownKeys m))"
    by (simp add: distinct_sortBy distinct_ownKeys)
  from foldl_setProp [OF this, of "[]" "ownValue m"] r m d show ?thesis by simp
qed

lemma tag_lists_in_collection_order:
  assumes "buildTagsMap h posts = Inr r"
  shows "ownValue r tag = tagEntries tag posts"
    and "set (ownKeys r) = (\<Union>p \<in> set posts. set (tags p))"
proof -
  from buildTagsMap_Inr [OF assms] obtain m where m: "collectTags [] posts = Inr m"
    and r: "r = map (\<lambda>k. (k, ownValue m k)) (sortBy (localeCompare h) (ownKeys m))"
    by blast
  from collectTags_Inr [OF m, of tag] have v: "ownValue m tag = tagEntries tag posts"
    and k: "fst ` set m = (\<Union>p \<in> set posts. set (tags p))"
    by (simp_all add: ownValue_def)
  show "ownValue r tag = tagEntries tag posts"
    using v ownValue_absent [of tag m] by (simp add: r ownValue_map set_sortBy set_ownKeys)
  have "fst ` set r = set (sortBy (localeCompare h) (ownKeys m))"
    by (simp add: r image_image)
  then show "set (ownKeys r) = (\<Union>p \<in> set posts. set (tags p))"
    using k by (simp add: set_ownKeys set_sortBy)
qed

lemma tag_keys_sorted:
  fixes key :: "jsstring \<Rightarrow> 'k::linorder"
  assumes "buildTagsMap h posts = Inr r"
    and cmp: "\<And>a b. localeCompare h a b \<le> 0 \<longleftrightarrow> key a \<le> key b"
  shows "sorted (map key (filter (\<lambda>k. \<not> isArrayIndex k) (ownKeys r)))"
    and "sorted (map digitsValue (filter isArrayIndex (ownKeys r)))"
    and "ownKeys r = filter isArrayIndex (ownKeys r) @ filter (\<lambda>k. \<not> isArrayIndex k) (ownKeys r)"
    and "(\<forall>p \<in> set posts. \<forall>t \<in> set (tags p). \<not> isArrayIndex t) \<Longrightarrow> sorted (map key (ownKeys r))"
proof -
  from buildTagsMap_Inr [OF assms(1)] obtain m where m: "collectTags [] posts = Inr m"
    and r: "r = map (\<lambda>k. (k, ownValue m k)) (sortBy (localeCompare h) (ownKeys m))"
    by blast
  have keys: "map fst r = sort_key key (ownKeys m)"
    by (simp add: r comp_def sortBy_sort_key [of "localeCompare h" key, OF cmp])
  have idx: "filter isArrayIndex (ownKeys r) = sort_key digitsValue (filter isArrayIndex (map fst r))"
    by (simp add: ownKeys_def filter_sort [symmetric])
  have other: "filter (\<lambda>k. \<not> isArrayIndex k) (ownKeys r)
      = filter (\<lambda>k. \<not> isArrayIndex k) (map fst r)"
    by (simp add: ownKeys_def filter_sort [symmetric])
  show 1: "sorted (map key (filter (\<lambda>k. \<not> isArrayIndex k) (ownKeys r)))"
    unfolding other keys by (simp add: filter_sort)
  show "sorted (map digitsValue (filter isArrayIndex (ownKeys r)))"
    unfolding idx by simp
  show 3: "ownKeys r = filter isArrayIndex (ownKeys r) @ filter (\<lambda>k. \<not> isArrayIndex k) (ownKeys r)"
    unfolding idx other by (simp add: ownKeys_def)
  assume "\<forall>p \<in> set posts. \<forall>t \<in> set (tags p). \<not> isArrayIndex t"
  with tag_lists_in_collection_order(2) [OF assms(1)]
  have "\<forall>k \<in> set (ownKeys r). \<not> isArrayIndex k" by auto
  then have "filter (\<lambda>k. \<not> isArrayIndex k) (ownKeys r) = ownKeys r" by simp
  with 1 show "sorted (map key (ownKeys r))" by simp
qed


text \<open>
  Claim C7. The keys of the tag map are inserted in alphabetical order, but an object
  lists the keys that are array indices first, in numeric order. With the tags 10 and
  9 the readers of the map find 9 before 10, and \<^verbatim>\<open>localeCompare\<close> puts 10 before 9.
\<close>

theorem tag_keys_numerals:
  "\<exists>m. buildTagsMap exampleHost numeralTags = Inr m
     \<and> ownKeys m = [js ''9'', js ''10'']
     \<and> localeCompare exampleHost (js ''10'') (js ''9'') < 0"
  by (simp add: buildTagsMap_def numeralTags_def examplePost_sel pushEntry_def objectPrototype_def
      nativeFunction_def ownKeys_def isArrayIndex_def isDigit_def digitsValue_def sortBy_def
      setProp_def ownValue_def exampleHost_def js_def)





section \<open>Escaped fields in markup\<close>

lemma escapeChar_no_markup: "filter isMarkup (escapeChar c) = []"
  by (simp add: escapeChar_def isMarkup_def js_def)

lemma escapeHtml_no_markup: "filter isMarkup (escapeHtml s) = []"
  by (induction s) (simp_all add: escapeHtml_Nil escapeHtml_Cons escapeChar_no_markup)

lemma escapeXml_no_markup: "filter isMarkup (escapeXml s) = []"
  by (simp add: escapeXml_def escapeHtml_no_markup)

text \<open>Every ampersand of an escaped text opens an entity.\<close>

lemma escapeChar_ampersand:
  assumes "i < length (escapeChar c)" "escapeChar c ! i = 0x26"
  shows "i = 0 \<and> escapeChar c \<in> set entities"
proof -
  consider "c = 0x26" | "c = 0x3C" | "c = 0x3E" | "c = 0x22" | "c = 0x27"
    | "c \<noteq> 0x26" "c \<noteq> 0x3C" "c \<noteq> 0x3E" "c \<noteq> 0x22" "c \<noteq> 0x27"
    by blast
  then show ?thesis
    using assms
    by cases (auto simp: escapeChar_def entities_def js_def nth_Cons' split: if_splits)
qed

lemma escapeHtml_ampersand:
  "i < length (escapeHtml s) \<Longrightarrow> escapeHtml s ! i = 0x26 \<Longrightarrow>
   \<exists>e \<in> set entities. startsWith (drop i (escapeHtml s)) e"
proof (induction s arbitrary: i)
  case Nil
  then show ?case by (simp add: escapeHtml_Nil)
next
  case (Cons c s)
  show ?case
  proof (cases "i < length (escapeChar c)")
    case True
    with Cons.prems have "escapeChar c ! i = 0x26"
      by (simp add: escapeHtml_Cons nth_append)
    from escapeChar_ampersand [OF True this]
    have "i = 0" and e: "escapeChar c \<in> set entities" by simp_all
    then have "startsWith (drop i (escapeHtml (c # s))) (escapeChar c)"
      by (simp add: escapeHtml_Cons startsWith_def)
    with e show ?thesis by blast
  next
    case False
    with Cons.prems have "i - length (escapeChar c) < length (escapeHtml s)"
      and "escapeHtml s ! (i - length (escapeChar c)) = 0x26"
      by (simp_all add: escapeHtml_Cons nth_append)
    from Cons.IH [OF this] False show ?thesis
      by (simp add: escapeHtml_Cons)
  qed
qed

text \<open>The markup of the cards, options and feed items does not depend on the fields.\<close>

lemma slugify_no_markup: "filter isMarkup (slugify h t) = []"
proof -
  have "\<not> isMarkup c" if "c \<in> set (slugify h t)" for c
    using slugify_chars [OF that] by (auto simp: isMarkup_def isSlugChar_def)
  then show ?thesis by (simp add: filter_empty_conv)
qed

lemma toPublicUrl_tag:
  "toPublicUrl st (VString (js ''/tags/'' @ s @ js ''.html''))
     = basePath st @ js ''/tags/'' @ s @ js ''.html''"
  by (simp add: toPublicUrl_def isHttpUrl_def startsWithCI_def startsWith_def asciiLower_def
      normalizePath_def trim_def isSpace_def js_def Let_def)

lemma readSlug_slugged:
  "slugged h p \<Longrightarrow> t \<in> set (tags p) \<Longrightarrow> readSlug p t = slugify h t"
proof -
  assume s: "slugged h p" and t: "t \<in> set (tags p)"
  have "map_of (map (\<lambda>t. (t, slugify h t)) ts) t = Some (slugify h t)" if "t \<in> set ts" for ts
    using that by (induction ts) auto
  with s t show ?thesis by (simp add: readSlug_def slugged_def)
qed

lemma tagLink_markup:
  "slugged h p \<Longrightarrow> t \<in> set (tags p) \<Longrightarrow> filter isMarkup (tagLink st p t) = tagLinkMarkup st"
  by (simp add: tagLink_def tagLinkMarkup_def readSlug_slugged toPublicUrl_tag slugify_no_markup
      escapeHtml_no_markup)

lemma tagLinks_markup:
  assumes "slugged h p"
  shows "filter isMarkup (concat (map (tagLink st p) (tags p)))
     = concat (replicate (length (tags p)) (tagLinkMarkup st))"
proof -
  have "filter isMarkup (concat (map (tagLink st p) ts)) = concat (replicate (length ts) (tagLinkMarkup st))"
    if "set ts \<subseteq> set (tags p)" for ts
    using that by (induction ts) (simp_all add: tagLink_markup [OF assms])
  then show ?thesis by simp
qed

lemma renderArticleCard_markup:
  assumes "slugged h p" "slugged h p'" "length (tags p) = length (tags p')"
  shows "filter isMarkup (renderArticleCard st p) = filter isMarkup (renderArticleCard st p')"
  by (simp add: renderArticleCard_def escapeHtml_no_markup tagLinks_markup [OF assms(1)]
      tagLinks_markup [OF assms(2)] assms(3))

lemma renderRelatedCard_markup:
  "filter isMarkup (renderRelatedCard p) = filter isMarkup (renderRelatedCard p')"
  by (simp add: renderRelatedCard_def escapeHtml_no_markup)

lemma renderTagCard_markup:
  "filter isMarkup (renderTagCard e) = filter isMarkup (renderTagCard e')"
  by (simp add: renderTagCard_def escapeHtml_no_markup)

lemma renderOption_markup:
  "filter isMarkup (renderOption v) = filter isMarkup (renderOption v')"
  by (simp add: renderOption_def escapeHtml_no_markup)

lemma rssItem_markup:
  "date p = date p' \<Longrightarrow> filter isMarkup (rssItem h p) = filter isMarkup (rssItem h p')"
  by (simp add: rssItem_def escapeXml_no_markup)


text \<open>In a text put together from escaped fields and plain text, every ampersand opens an entity.\<close>

lemma entitiesOnly_append:
  assumes "entitiesOnly a" "entitiesOnly b"
  shows "entitiesOnly (a @ b)"
  unfolding entitiesOnly_def
proof (intro allI impI)
  fix i
  assume i: "i < length (a @ b)" and amp: "(a @ b) ! i = 0x26"
  show "\<exists>e \<in> set entities. startsWith (drop i (a @ b)) e"
  proof (cases "i < length a")
    case True
    with amp assms(1) obtain e where e: "e \<in> set entities" "startsWith (drop i a) e"
      by (auto simp: entitiesOnly_def nth_append)
    from e(2) have t: "take (length e) (drop i a) = e" by (simp add: startsWith_def)
    then have "length (take (length e) (drop i a)) = length e" by simp
    then have "length e \<le> length (drop i a)" by simp
    with t have "startsWith (drop i (a @ b)) e"
      using True by (simp add: startsWith_def)
    with e(1) show ?thesis by blast
  next
    case False
    with i amp assms(2) show ?thesis
      by (auto simp: entitiesOnly_def nth_append)
  qed
qed

lemma entitiesOnly_plain:
  "0x26 \<notin> set s \<Longrightarrow> entitiesOnly s"
  unfolding entitiesOnly_def by (metis nth_mem)

lemma entitiesOnly_escapeHtml: "entitiesOnly (escapeHtml s)"
  by (simp add: entitiesOnly_def escapeHtml_ampersand)

lemma entitiesOnly_escapeXml: "entitiesOnly (escapeXml s)"
  by (simp add: escapeXml_def entitiesOnly_escapeHtml)

lemma entitiesOnly_line: "0x26 \<notin> set (js text) \<Longrightarrow> entitiesOnly (line n text)"
  by (rule entitiesOnly_plain) (simp add: line_def newline_def)

lemma entitiesOnly_concat:
  "(\<And>x. x \<in> set xs \<Longrightarrow> entitiesOnly x) \<Longrightarrow> entitiesOnly (concat xs)"
  by (induction xs) (simp_all add: entitiesOnly_append entitiesOnly_plain)

lemma renderRelatedCard_entities: "entitiesOnly (renderRelatedCard p)"
  unfolding renderRelatedCard_def
  by (intro entitiesOnly_append entitiesOnly_escapeHtml entitiesOnly_line)
     (simp_all add: entitiesOnly_plain js_def)


lemma renderTagCard_entities: "entitiesOnly (renderTagCard e)"
  unfolding renderTagCard_def
  by (intro entitiesOnly_append entitiesOnly_escapeHtml entitiesOnly_line)
     (simp_all add: entitiesOnly_plain js_def)

lemma renderOption_entities: "entitiesOnly (renderOption v)"
  unfolding renderOption_def
  by (intro entitiesOnly_append entitiesOnly_escapeHtml)
     (simp_all add: entitiesOnly_plain js_def)

lemma rssItem_entities:
  "0x26 \<notin> set (toUTCString h (date p)) \<Longrightarrow> entitiesOnly (rssItem h p)"
  unfolding rssItem_def
  by (intro entitiesOnly_append entitiesOnly_escapeXml entitiesOnly_line)
     (simp_all add: entitiesOnly_plain js_def)

lemma slugify_no_ampersand: "0x26 \<notin> set (slugify h t)"
  using slugify_chars [of "0x26" h t] by (auto simp: isSlugChar_def)

lemma tagLink_entities:
  assumes "slugged h p" "t \<in> set (tags p)" "0x26 \<notin> set (basePath st)"
  shows "entitiesOnly (tagLink st p t)"
  unfolding tagLink_def readSlug_slugged [OF assms(1,2)] toPublicUrl_tag
  by (intro entitiesOnly_append entitiesOnly_escapeHtml)
     (simp_all add: entitiesOnly_plain js_def assms(3) slugify_no_ampersand)

lemma tagLinks_entities:
  assumes "slugged h p" "0x26 \<notin> set (basePath st)"
  shows "entitiesOnly (concat (map (tagLink st p) (tags p)))"
  by (rule entitiesOnly_concat) (auto intro: tagLink_entities [OF assms(1) _ assms(2)])

lemma renderArticleCard_entities:
  assumes "slugged h p" "0x26 \<notin> set (basePath st)"
  shows "entitiesOnly (renderArticleCard st p)"
  unfolding renderArticleCard_def
  by (intro entitiesOnly_append entitiesOnly_escapeHtml entitiesOnly_line tagLinks_entities [OF assms])
     (simp_all add: entitiesOnly_plain js_def)


lemma escapeHtml_chars:
  "c \<in> set (escapeHtml s) \<Longrightarrow> c \<noteq> 0x3C \<and> c \<noteq> 0x3E \<and> c \<noteq> 0x22 \<and> c \<noteq> 0x27"
  using escapeHtml_no_markup [of s] by (auto simp: filter_empty_conv isMarkup_def)

text \<open>
  Claim C10. The text that \<^verbatim>\<open>escapeHtml\<close> (and so \<^verbatim>\<open>escapeXml\<close>) returns holds none of the
  code units \<^verbatim>\<open><\<close>, \<^verbatim>\<open>>\<close>, the double quote and the single quote, and each of its
  ampersands opens one of the five entities. The cards, the options and the feed items
  take the fields of a post through it: their markup code units are the same whatever
  the title, category, summary, tag names and URL hold, and their ampersands open
  entities. The link of a tag in a card takes the slug of the tag, which holds letters,
  digits and hyphens only, and the feed item the date as the runtime prints it.
\<close>

theorem escapeHtml_safe_markup:
  "(\<forall>c \<in> set (escapeHtml s). c \<noteq> 0x3C \<and> c \<noteq> 0x3E \<and> c \<noteq> 0x22 \<and> c \<noteq> 0x27)
   \<and> (\<forall>i < length (escapeHtml s). escapeHtml s ! i = 0x26 \<longrightarrow>
          (\<exists>e \<in> set entities. startsWith (drop i (escapeHtml s)) e))
   \<and> escapeXml s = escapeHtml s
   \<and> (slugged h p \<and> slugged h p' \<and> length (tags p) = length (tags p') \<longrightarrow>
        filter isMarkup (renderArticleCard st p) = filter isMarkup (renderArticleCard st p'))
   \<and> (slugged h p \<and> 0x26 \<notin> set (basePath st) \<longrightarrow> entitiesOnly (renderArticleCard st p))
   \<and> filter isMarkup (renderRelatedCard p) = filter isMarkup (renderRelatedCard p')
   \<and> entitiesOnly (renderRelatedCard p)
   \<and> filter isMarkup (renderTagCard e) = filter isMarkup (renderTagCard e')
   \<and> entitiesOnly (renderTagCard e)
   \<and> filter isMarkup (renderOption v) = filter isMarkup (renderOption v')
   \<and> entitiesOnly (renderOption v)
   \<and> (date p = date p' \<longrightarrow> filter isMarkup (rssItem h p) = filter isMarkup (rssItem h p'))
   \<and> (0x26 \<notin> set (toUTCString h (date p)) \<longrightarrow> entitiesOnly (rssItem h p))"
proof (intro conjI ballI allI impI)
  show "c \<noteq> 0x3C" "c \<noteq> 0x3E" "c \<noteq> 0x22" "c \<noteq> 0x27" if "c \<in> set (escapeHtml s)" for c
    using escapeHtml_chars [OF that] by simp_all
  show "\<exists>e \<in> set entities. startsWith (drop i (escapeHtml s)) e"
    if "i < length (escapeHtml s)" "escapeHtml s ! i = 0x26" for i
    using that by (rule escapeHtml_ampersand)
  show "escapeXml s = escapeHtml s" by (simp add: escapeXml_def)
  show "filter isMarkup (renderArticleCard st p) = filter isMarkup (renderArticleCard st p')"
    if "slugged h p \<and> slugged h p' \<and> length (tags p) = length (tags p')"
    using that by (auto intro: renderArticleCard_markup)
  show "entitiesOnly (renderArticleCard st p)" if "slugged h p \<and> 0x26 \<notin> set (basePath st)"
    using that by (auto intro: renderArticleCard_entities)
  show "filter isMarkup (renderRelatedCard p) = filter isMarkup (renderRelatedCard p')"
    by (rule renderRelatedCard_markup)
  show "entitiesOnly (renderRelatedCard p)" by (rule renderRelatedCard_entities)
  show "filter isMarkup (renderTagCard e) = filter isMarkup (renderTagCard e')"
    by (rule renderTagCard_markup)
  show "entitiesOnly (renderTagCard e)" by (rule renderTagCard_entities)
  show "filter isMarkup (renderOption v) = filter isMarkup (renderOption v')"
    by (rule renderOption_markup)
  show "entitiesOnly (renderOption v)" by (rule renderOption_entities)
  show "filter isMarkup (rssItem h p) = filter isMarkup (rssItem h p')" if "date p = date p'"
    using that by (rule rssItem_markup)
  show "entitiesOnly (rssItem h p)" if "0x26 \<notin> set (toUTCString h (date p))"
    using that by (rule rssItem_entities)
qed

lemma examplePost_slugged: "slugged exampleHost (examplePost n d c t)"
  by (simp add: slugged_def examplePost_def comp_def)

lemma postX_facts:
  "slugged exampleHost postX" "tags postX = [js ''a&b'', js ''<i>'']" "date postX = 3000"
  using examplePost_slugged [of "''x''" 3000 "''R&D''" "[''a&b'', ''<i>'']"]
  by (simp_all add: postX_def slugged_def examplePost_sel)

theorem escapeHtml_safe_markup_witness:
  "0x3C \<notin> set (escapeHtml (title postX))
   \<and> slugged exampleHost postA \<and> slugged exampleHost postX
   \<and> length (tags postA) = length (tags postX)
   \<and> filter isMarkup (renderArticleCard exampleSite postA)
       = filter isMarkup (renderArticleCard exampleSite postX)
   \<and> 0x26 \<notin> set (basePath exampleSite)
   \<and> entitiesOnly (renderArticleCard exampleSite postX)
   \<and> date postA = date postX
   \<and> filter isMarkup (rssItem exampleHost postA) = filter isMarkup (rssItem exampleHost postX)
   \<and> 0x26 \<notin> set (toUTCString exampleHost (date postX))
   \<and> entitiesOnly (rssItem exampleHost postX)"
proof -
  have a: "slugged exampleHost postA" "length (tags postA) = length (tags postX)"
    "date postA = date postX"
    by (simp_all add: postA_def examplePost_slugged examplePost_sel postX_facts)
  have b: "0x26 \<notin> set (basePath exampleSite)" by (simp add: exampleSite_def)
  have c: "0x26 \<notin> set (toUTCString exampleHost (date postX))"
    by (simp add: postX_facts exampleHost_def js_def)
  note x = escapeHtml_safe_markup [of "title postX" exampleHost postX postX exampleSite]
  note ax = escapeHtml_safe_markup [of "title postX" exampleHost postA postX exampleSite]
  from x have "\<forall>c \<in> set (escapeHtml (title postX)). c \<noteq> 0x3C \<and> c \<noteq> 0x3E \<and> c \<noteq> 0x22 \<and> c \<noteq> 0x27"
    by (rule conjunct1)
  then have d: "0x3C \<notin> set (escapeHtml (title postX))" by blast
  from x ax a b c d postX_facts(1) show ?thesis by simp
qed



section \<open>The slug of a long name\<close>

lemma longNamed_slug:
  "slugify exampleHost (basenameMd (fileName longNamed)) = replicate 79 0x61 @ js ''-''"
  by code_simp

lemma longNamed_loads:
  "\<exists>p. loadPost exampleHost exampleSite longNamed = Inr p"
  using exampleFile_loads [OF _ exampleFile_date(1), of "[''x'']" exampleSite longName "''Tech''"]
  by (auto simp: longNamed_def)

text \<open>
  Claim C6. The slug of a loaded post holds only the code units a to z, 0 to 9 and the
  hyphen and is at most 80 code units long (lemmas \<open>slugify_chars\<close> and
  \<open>slugify_length\<close>), but it can end with a hyphen: the edge hyphens are removed before
  the text is cut to 80 code units, and a hyphen that the cut leaves last stays. The
  file whose name has 79 letters, a hyphen and one more letter loads with a slug of 80
  code units, the last of them the hyphen.
\<close>

theorem slug_trailing_hyphen:
  "\<exists>p. loadPost exampleHost exampleSite longNamed = Inr p
     \<and> slug p = replicate 79 0x61 @ js ''-''
     \<and> length (slug p) = 80 \<and> last (slug p) = 0x2D"
proof -
  from longNamed_loads obtain p where p: "loadPost exampleHost exampleSite longNamed = Inr p" ..
  from loadPost_Inr(3) [OF p] have "slug p = replicate 79 0x61 @ js ''-''"
    by (simp only: longNamed_slug)
  moreover from this have "length (slug p) = 80" "last (slug p) = 0x2D"
    by (simp_all add: js_def)
  ultimately show ?thesis using p by blast
qed

section \<open>Images\<close>

text \<open>
  Wherever the text \<^verbatim>\<open><img\<close> and white space stand in the result, the attribute
  follows: the pattern leaves no such place without it, and its replacement makes none.
\<close>

lemma addLazy_img:
  "isSpace w \<Longrightarrow>
   addLazyLoadingToImages (js ''<img'' @ w # rest)
     = lazyImg @ addLazyLoadingToImages (dropWhile isSpace rest)"
  by (simp add: js_def imgMatch_def startsWith_def)

lemma imgMatch_lt: "imgMatch s \<Longrightarrow> \<exists>cs. s = 0x3C # cs"
  by (cases s) (auto simp: imgMatch_def startsWith_def js_def)

lemma addLazy_copy:
  "c \<noteq> 0x3C \<Longrightarrow> addLazyLoadingToImages (c # cs) = c # addLazyLoadingToImages cs"
  using imgMatch_lt [of "c # cs"] by auto

lemma lazyImg_hd: "\<exists>t. lazyImg = 0x3C # t"
  by (simp add: lazyImg_def js_def)

lemma addLazy_hd:
  assumes "addLazyLoadingToImages s = a # out" "a \<noteq> 0x3C"
  shows "\<exists>cs. s = a # cs \<and> out = addLazyLoadingToImages cs"
proof (cases s)
  case Nil
  with assms show ?thesis by simp
next
  case (Cons x xs)
  show ?thesis
  proof (cases "imgMatch (x # xs)")
    case True
    obtain t where t: "lazyImg = 0x3C # t" using lazyImg_hd by blast
    from True assms(1) Cons have "a = 0x3C" by (simp add: t)
    with assms(2) show ?thesis by simp
  next
    case False
    with assms Cons show ?thesis by simp
  qed
qed

lemma isSpace_not_lt: "isSpace w \<Longrightarrow> w \<noteq> 0x3C"
  by (auto simp: isSpace_def)

lemma imgMatch_addLazy:
  assumes "imgMatch (c # addLazyLoadingToImages cs)"
  shows "imgMatch (c # cs)"
proof -
  from assms obtain w rest where out: "addLazyLoadingToImages cs = 0x69 # 0x6D # 0x67 # w # rest"
    and c: "c = 0x3C" and w: "isSpace w"
    by (cases "addLazyLoadingToImages cs"; cases "tl (addLazyLoadingToImages cs)";
        cases "tl (tl (addLazyLoadingToImages cs))"; cases "tl (tl (tl (addLazyLoadingToImages cs)))")
       (auto simp: imgMatch_def startsWith_def js_def)
  from addLazy_hd [OF out] obtain c1 where 1: "cs = 0x69 # c1"
    "addLazyLoadingToImages c1 = 0x6D # 0x67 # w # rest" by auto
  from addLazy_hd [OF 1(2)] obtain c2 where 2: "c1 = 0x6D # c2"
    "addLazyLoadingToImages c2 = 0x67 # w # rest" by auto
  from addLazy_hd [OF 2(2)] obtain c3 where 3: "c2 = 0x67 # c3"
    "addLazyLoadingToImages c3 = w # rest" by auto
  from addLazy_hd [OF 3(2) isSpace_not_lt [OF w]] obtain c4 where 4: "c3 = w # c4" by auto
  show ?thesis
    by (simp add: c 1 2 3 4 imgMatch_def startsWith_def js_def w)
qed

lemma lazyImg_inner:
  assumes "0 < i" "i < length lazyImg"
  shows "\<not> imgMatch (drop i (lazyImg @ out))"
proof -
  have "lazyImg ! i \<noteq> 0x3C"
    using assms by (auto simp: lazyImg_def js_def nth_Cons' less_Suc_eq)
  moreover have "drop i (lazyImg @ out) = lazyImg ! i # drop (Suc i) (lazyImg @ out)"
    using assms by (simp add: Cons_nth_drop_Suc nth_append)
  ultimately show ?thesis
    using imgMatch_lt by fastforce
qed

lemma lazyEverywhere_addLazy:
  "lazyEverywhere (addLazyLoadingToImages html)"
proof (induction html rule: addLazyLoadingToImages.induct)
  case 1
  show ?case by (simp add: lazyEverywhere_def)
next
  case (2 c cs)
  show ?case
  proof (cases "imgMatch (c # cs)")
    case True
    let ?out = "addLazyLoadingToImages (dropWhile isSpace (drop 3 cs))"
    from True 2 have ih: "lazyEverywhere ?out" by simp
    have eq: "addLazyLoadingToImages (c # cs) = lazyImg @ ?out" using True by simp
    show ?thesis
      unfolding eq lazyEverywhere_def
    proof (intro allI impI)
      fix i
      assume i: "i < length (lazyImg @ ?out)" and m: "imgMatch (drop i (lazyImg @ ?out))"
      consider "i = 0" | "0 < i" "i < length lazyImg" | "length lazyImg \<le> i" by linarith
      then show "startsWith (drop i (lazyImg @ ?out)) lazyImg"
      proof cases
        case 1
        then show ?thesis by (simp add: startsWith_def)
      next
        case 2
        with m lazyImg_inner show ?thesis by blast
      next
        case 3
        with i m ih show ?thesis by (simp add: lazyEverywhere_def)
      qed
    qed
  next
    case False
    let ?out = "addLazyLoadingToImages cs"
    from False 2 have ih: "lazyEverywhere ?out" by simp
    have eq: "addLazyLoadingToImages (c # cs) = c # ?out" using False by simp
    show ?thesis
      unfolding eq lazyEverywhere_def
    proof (intro allI impI)
      fix i
      assume i: "i < length (c # ?out)" and m: "imgMatch (drop i (c # ?out))"
      show "startsWith (drop i (c # ?out)) lazyImg"
      proof (cases i)
        case 0
        with m have "imgMatch (c # ?out)" by simp
        then have "imgMatch (c # cs)" by (rule imgMatch_addLazy)
        with False show ?thesis by simp
      next
        case (Suc j)
        with i m ih show ?thesis by (simp add: lazyEverywhere_def)
      qed
    qed
  qed
qed

lemma htmlContent_lazy:
  "loadPost h st f = Inr p \<Longrightarrow> lazyEverywhere (htmlContent p)"
  using loadPost_Inr(4) lazyEverywhere_addLazy by simp


lemma capitalImage_loads:
  "\<exists>p. loadPost exampleHost exampleSite capitalImage = Inr p"
proof -
  have "validateFrontmatter (fileName capitalImage) (fmData capitalImage) = Inr ()"
    using exampleFile_valid [of "[''x'']" "''imagem.md''" 1000 "''Tech''"]
    by (simp add: capitalImage_def)
  moreover have "parseDate exampleHost (getField (fmData capitalImage) (js ''date'')) = Some 1000"
    using exampleFile_date(1) [of "''imagem.md''" "''Tech''" "[''x'']"]
    by (simp add: capitalImage_def)
  ultimately show ?thesis
    using loadPost_exampleHost by blast
qed

text \<open>
  Claim C9. The pattern \<^verbatim>\<open>/<img\s+/g\<close> is case sensitive, and the renderer passes the
  HTML of the Markdown source through: an image tag written \<^verbatim>\<open><IMG ...>\<close> in the body of
  a post stays as it is, and the loaded post has it without a \<^verbatim>\<open>loading\<close> attribute.
  The same tag in lower case gets the attribute (lemma \<open>lowercase_image\<close>).
\<close>

theorem lazy_loading_capitals:
  \<open>\<exists>p. loadPost exampleHost exampleSite capitalImage = Inr p
     \<and> htmlContent p = js ''<p>Veja <IMG src="a.png"> aqui</p>'' @ [0x0A]
     \<and> \<not> sublist (js ''loading'') (htmlContent p)\<close>
proof -
  from capitalImage_loads obtain p where p: "loadPost exampleHost exampleSite capitalImage = Inr p" ..
  have \<open>addLazyLoadingToImages (mdRender exampleHost (fmContent capitalImage))
      = js ''<p>Veja <IMG src="a.png"> aqui</p>'' @ [0x0A]\<close>
    by (simp add: capitalImage_def exampleHost_def js_def imgMatch_def startsWith_def isSpace_def)
  with loadPost_Inr(4) [OF p]
  have h: \<open>htmlContent p = js ''<p>Veja <IMG src="a.png"> aqui</p>'' @ [0x0A]\<close> by simp
  have \<open>\<not> sublist (js ''loading'') (js ''<p>Veja <IMG src="a.png"> aqui</p>'' @ [0x0A])\<close>
    by (simp add: js_def sublist_Cons_right prefix_Cons)
  with h p show ?thesis by simp
qed

lemma lowercase_image:
  \<open>addLazyLoadingToImages (mdRender exampleHost (js ''Veja <img src="a.png"> aqui''))
     = js ''<p>Veja <img loading="lazy" src="a.png"> aqui</p>'' @ [0x0A]\<close>
  by (simp add: exampleHost_def js_def imgMatch_def startsWith_def isSpace_def lazyImg_def)



section \<open>Runs that go through\<close>

text \<open>When loading succeeds: every post file has a valid header, a date and URLs that resolve.\<close>

lemma loadPost_succeeds:
  assumes "\<not> invalidHeader (fmData f)"
    and "parseDate h (getField (fmData f) (js ''date'')) \<noteq> None"
    and "\<And>path. urlResolve h path (origin st) \<noteq> None"
  shows "loads h st f"
proof -
  have v: "validateFrontmatter (fileName f) (fmData f) = Inr ()"
    using assms(1) by (simp add: invalidHeader_def validateFrontmatter_def Let_def)
  from assms(2) obtain d where d: "parseDate h (getField (fmData f) (js ''date'')) = Some d" by auto
  have u: "\<exists>u. toAbsoluteUrl h st x = Inr u" for x
  proof -
    let ?path = "basePath st @ normalizePath x"
    from assms(3) obtain y
      where "urlResolve h (if ?path = [] then js ''/'' else ?path) (origin st) = Some y"
      by blast
    then show ?thesis by (simp add: toAbsoluteUrl_def Let_def)
  qed
  obtain a where a: "toAbsoluteUrl h st (getField (fmData f) (js ''coverImage'')) = Inr a"
    using u by blast
  obtain b where b: "toAbsoluteUrl h st
      (VString (js ''/posts/'' @ slugify h (basenameMd (fileName f)) @ js ''.html'')) = Inr b"
    using u by blast
  show ?thesis
    by (simp add: loads_def loadPost_def Let_def v d a b)
qed

lemma loadAll_succeeds:
  "(\<And>f. f \<in> set fs \<Longrightarrow> loads h st f) \<Longrightarrow> \<exists>ps. loadAll h st fs = Inr ps \<and> length ps = length fs"
proof (induction fs)
  case Nil
  then show ?case by simp
next
  case (Cons f fs)
  from Cons.prems have "loads h st f" by simp
  then obtain p where "loadPost h st f = Inr p" by (auto simp: loads_def split: sum.splits)
  moreover from Cons obtain ps where "loadAll h st fs = Inr ps" "length ps = length fs" by auto
  ultimately show ?case by simp
qed

lemma loadPosts_succeeds:
  assumes "\<And>f. f \<in> set dir \<Longrightarrow> isPostFile f \<Longrightarrow> loads h st f"
  shows "\<exists>posts. loadPosts h st dir = Inr posts \<and> length posts = length (filter isPostFile dir)"
proof -
  have "filter (\<lambda>f. endsWith (fileName f) (js ''.md'')) dir = filter isPostFile dir"
    by (rule filter_cong) (simp_all add: isPostFile_def)
  moreover from loadAll_succeeds [of "filter isPostFile dir" h st] assms
  obtain ps where "loadAll h st (filter isPostFile dir) = Inr ps" "length ps = length (filter isPostFile dir)"
    by auto
  moreover have "length (sortBy cmp xs) = length xs" for cmp :: "post \<Rightarrow> post \<Rightarrow> int" and xs
  proof (induction xs)
    case (Cons x xs)
    have "length (insertBy cmp x ys) = Suc (length ys)" for ys by (induction ys) simp_all
    with Cons show ?case by (simp add: sortBy_def)
  qed (simp add: sortBy_def)
  ultimately show ?thesis by (simp add: loadPosts_def)
qed

text \<open>The sitemap is written when the path of every page resolves.\<close>

lemma writeSitemap_succeeds:
  assumes "\<And>p. p \<in> set pages \<Longrightarrow> \<exists>u. toAbsoluteUrl h st (VString (pageFile p)) = Inr u"
  shows "\<exists>xml. writeSitemap h st pages = Inr xml"
proof -
  have m: "\<exists>urls. mapE (sitemapUrl h st) qs = Inr urls" if "set qs \<subseteq> set pages" for qs
    using that
  proof (induction qs)
    case (Cons q qs)
    from Cons.prems assms obtain u where "toAbsoluteUrl h st (VString (pageFile q)) = Inr u" by auto
    then have "\<exists>e. sitemapUrl h st q = Inr e" by (simp add: sitemapUrl_def)
    moreover from Cons obtain urls where "mapE (sitemapUrl h st) qs = Inr urls" by auto
    ultimately show ?case by auto
  qed simp
  from m [OF uniquePages_subset] obtain urls
    where "mapE (sitemapUrl h st) (uniquePages [] pages) = Inr urls" by blast
  then show ?thesis by (simp add: writeSitemap_def)
qed


end
